theory Spec2Isabelle
  imports Complex_Main
begin

section \<open>Doubles\<close>

text \<open>
  The sampler computes with C++ \<open>double\<close>. A double is modelled as a real number or one of
  the three special values; rounding, overflow, underflow and the sign of zero are not
  modelled. The special values follow IEEE-754: NaN is absorbing, every comparison with NaN
  is false, \<open>inf - inf\<close>, \<open>0 * inf\<close>, \<open>0 / 0\<close> and \<open>inf / inf\<close> are NaN.
\<close>

datatype double = Fin real | PInf | NInf | NaN

fun dneg :: "double \<Rightarrow> double" where
  "dneg (Fin a) = Fin (- a)"
| "dneg PInf = NInf"
| "dneg NInf = PInf"
| "dneg NaN = NaN"

fun dadd :: "double \<Rightarrow> double \<Rightarrow> double" where
  "dadd (Fin a) (Fin b) = Fin (a + b)"
| "dadd NaN _ = NaN"
| "dadd _ NaN = NaN"
| "dadd PInf NInf = NaN"
| "dadd NInf PInf = NaN"
| "dadd PInf _ = PInf"
| "dadd _ PInf = PInf"
| "dadd NInf _ = NInf"
| "dadd _ NInf = NInf"

definition dsub :: "double \<Rightarrow> double \<Rightarrow> double" where
  "dsub a b = dadd a (dneg b)"

text \<open>The sign of a double that is not NaN: \<open>1\<close>, \<open>0\<close> or \<open>-1\<close>.\<close>

fun dsgn :: "double \<Rightarrow> int" where
  "dsgn (Fin a) = (if a = 0 then 0 else if 0 < a then 1 else - 1)"
| "dsgn PInf = 1"
| "dsgn NInf = - 1"
| "dsgn NaN = 0"

definition inf_of_sign :: "int \<Rightarrow> double" where
  "inf_of_sign s = (if s = 0 then NaN else if 0 < s then PInf else NInf)"

fun dmul :: "double \<Rightarrow> double \<Rightarrow> double" where
  "dmul (Fin a) (Fin b) = Fin (a * b)"
| "dmul NaN _ = NaN"
| "dmul _ NaN = NaN"
| "dmul a b = inf_of_sign (dsgn a * dsgn b)"

fun ddiv :: "double \<Rightarrow> double \<Rightarrow> double" where
  "ddiv (Fin a) (Fin b) = (if b = 0 then inf_of_sign (dsgn (Fin a)) else Fin (a / b))"
| "ddiv NaN _ = NaN"
| "ddiv _ NaN = NaN"
| "ddiv (Fin a) _ = Fin 0"
| "ddiv a (Fin b) = inf_of_sign (dsgn a * (if b < 0 then - 1 else 1))"
| "ddiv _ _ = NaN"

fun dexp :: "double \<Rightarrow> double" where
  "dexp (Fin a) = Fin (exp a)"
| "dexp PInf = PInf"
| "dexp NInf = Fin 0"
| "dexp NaN = NaN"

fun dless :: "double \<Rightarrow> double \<Rightarrow> bool" where
  "dless (Fin a) (Fin b) = (a < b)"
| "dless NaN _ = False"
| "dless _ NaN = False"
| "dless _ NInf = False"
| "dless PInf _ = False"
| "dless _ _ = True"

fun deq :: "double \<Rightarrow> double \<Rightarrow> bool" where
  "deq NaN _ = False"
| "deq _ NaN = False"
| "deq a b = (a = b)"

definition dle :: "double \<Rightarrow> double \<Rightarrow> bool" where
  "dle a b = (dless a b \<or> deq a b)"

text \<open>\<open>std::min(a, b)\<close> is \<open>(b < a) ? b : a\<close>, so \<open>std::min(1., NaN)\<close> is \<open>1.\<close>.\<close>

definition dmin :: "double \<Rightarrow> double \<Rightarrow> double" where
  "dmin a b = (if dless b a then b else a)"

definition isnan :: "double \<Rightarrow> bool" where
  "isnan a = (a = NaN)"

text \<open>
  The test the two acceptance functions apply to a log-target:
  \<open>(t == -INFINITY) || (t == INFINITY) || isnan(t)\<close>.
\<close>

definition notFinite :: "double \<Rightarrow> bool" where
  "notFinite t = (deq t NInf \<or> deq t PInf \<or> isnan t)"

section \<open>Positions and the transition kernel\<close>

record 'v MarkovChainPositionData =
  vecValues :: 'v
  outOfTargetSupport :: bool
  logLikelihood :: double
  logTarget :: double

text \<open>
  The transition kernel \<open>m_tk\<close> (class \<open>BaseTKGroup\<close>) is not among the verified source files.
  The acceptance functions use four of its operations, which are taken as parameters:
  \<open>symmetric()\<close>, \<open>rv(stageId).pdf().lnValue(v)\<close>, \<open>rv(stageIds).pdf().lnValue(v)\<close> and
  \<open>preComputingPosition(stageId)\<close>.
\<close>

record 'v BaseTKGroup =
  symmetric :: bool
  rvLnValue :: "nat \<Rightarrow> 'v \<Rightarrow> double"
  rvsLnValue :: "nat list \<Rightarrow> 'v \<Rightarrow> double"
  preComputingPosition :: "nat \<Rightarrow> 'v"

text \<open>
  The build flag \<open>QUESO_EXPECTS_LN_LIKELIHOOD_INSTEAD_OF_MINUS_2_LN\<close> is the boolean
  \<open>expectsLn\<close>: with it a returned value is used as it is, without it the value is
  multiplied by \<open>-0.5\<close>.
\<close>

definition lnConv :: "bool \<Rightarrow> double \<Rightarrow> double" where
  "lnConv expectsLn d = (if expectsLn then d else dmul (Fin (- (1 / 2))) d)"

datatype error =
    InitialPositionOutOfSupport
  | InvalidInitialPreComputingPosition
  | AlphaInputSizeLessThan2
  | InvalidFirstCholReturnCode
  | InvalidSecondCholReturnCode
  | PartialChainSizeLessThan2
  | PartialChainSizeLessThan1
  | IdOfFirstPositionLessThan1
  | PositionOutOfSequence
  | NullPointer

section \<open>Single-stage acceptance: \<open>alpha(x, y, xStageId, yStageId, alphaQuotientPtr)\<close>\<close>

text \<open>
  The result holds the returned value, the value written through \<open>alphaQuotientPtr\<close>, and
  whether the \<open>WARNING\<close> line was written to \<open>std::cerr\<close>.
\<close>

record alpha_result =
  alphaValue :: double
  alphaQuotient :: double
  warned :: bool

definition alpha_xy ::
  "bool \<Rightarrow> 'v BaseTKGroup \<Rightarrow> 'v MarkovChainPositionData \<Rightarrow> 'v MarkovChainPositionData
    \<Rightarrow> nat \<Rightarrow> nat \<Rightarrow> alpha_result" where
  "alpha_xy expectsLn tk x y xStageId yStageId =
    (let (q, w) =
       (if \<not> outOfTargetSupport x \<and> \<not> outOfTargetSupport y then
          (if notFinite (logTarget x) then (Fin 0, True)
           else if notFinite (logTarget y) then (Fin 0, True)
           else
             (let yLogTargetToUse = logTarget y in
              if symmetric tk then (dexp (dsub yLogTargetToUse (logTarget x)), False)
              else
                (let qyx = lnConv expectsLn (rvLnValue tk yStageId (vecValues x));
                     qxy = lnConv expectsLn (rvLnValue tk xStageId (vecValues y))
                 in (dexp (dsub (dsub (dadd yLogTargetToUse qyx) (logTarget x)) qxy), False))))
        else (Fin 0, False))
     in \<lparr> alphaValue = dmin (Fin 1) q, alphaQuotient = q, warned = w \<rparr>)"

section \<open>Acceptance decision: \<open>acceptAlpha\<close>\<close>

text \<open>
  The uniform samples of \<open>m_env.rngObject()\<close> are a stream \<open>u\<close>; \<open>n\<close> is the number of
  samples drawn so far, and the function returns the decision and the new count.
\<close>

definition acceptAlpha :: "(nat \<Rightarrow> double) \<Rightarrow> double \<Rightarrow> nat \<Rightarrow> bool \<times> nat" where
  "acceptAlpha u alpha n =
    (if dle alpha (Fin 0) then (False, n)
     else if dle (Fin 1) alpha then (True, n)
     else if dle (u n) alpha then (True, Suc n)
     else (False, Suc n))"

section \<open>Multi-stage acceptance: \<open>alpha(inputPositionsData, inputTKStageIds)\<close>\<close>

text \<open>
  One pass of the loop body on the four cumulative variables, given the two contributions
  and the results of the two recursive calls of that pass. A fatal abort inside a recursive
  call aborts the caller.
\<close>

definition accumulate ::
  "error + double \<times> double \<times> double \<times> double \<Rightarrow> double \<Rightarrow> double
    \<Rightarrow> error + double \<Rightarrow> error + double \<Rightarrow> error + double \<times> double \<times> double \<times> double" where
  "accumulate acc numContrib denContrib backwardAlpha forwardAlpha =
    (case acc of
       Inl e \<Rightarrow> Inl e
     | Inr (logNumerator, logDenominator, alphasNumerator, alphasDenominator) \<Rightarrow>
        (case backwardAlpha of
           Inl e \<Rightarrow> Inl e
         | Inr ab \<Rightarrow>
            (case forwardAlpha of
               Inl e \<Rightarrow> Inl e
             | Inr af \<Rightarrow>
                 Inr (dadd logNumerator numContrib, dadd logDenominator denContrib,
                      dmul alphasNumerator (dsub (Fin 1) ab),
                      dmul alphasDenominator (dsub (Fin 1) af)))))"

text \<open>
  The vectors the source copies and then shortens with \<open>pop_back\<close> are written by index:
  in pass \<open>i\<close> of the loop, after the \<open>pop_back\<close> calls of that pass, \<open>positionsData\<close> and
  \<open>tkStageIds\<close> hold their first \<open>inputSize - 1 - i\<close> entries and \<open>tkStageIdsLess1\<close> its
  first \<open>inputSize - 2 - i\<close> entries; the stage id read before the \<open>pop_back\<close> is entry
  \<open>inputSize - 2 - i\<close>. The \<open>WARNING\<close> lines of this function are not modelled.
\<close>

function alpha_vec ::
  "bool \<Rightarrow> 'v BaseTKGroup \<Rightarrow> 'v MarkovChainPositionData list \<Rightarrow> nat list \<Rightarrow> error + double" where
  "alpha_vec expectsLn tk inputPositionsData inputTKStageIds =
    (let inputSize = length inputPositionsData in
     if inputSize < 2 then Inl AlphaInputSizeLessThan2
     else if outOfTargetSupport (inputPositionsData ! 0) then Inr (Fin 0)
     else if outOfTargetSupport (inputPositionsData ! (inputSize - 1)) then Inr (Fin 0)
     else if notFinite (logTarget (inputPositionsData ! 0)) then Inr (Fin 0)
     else if notFinite (logTarget (inputPositionsData ! (inputSize - 1))) then Inr (Fin 0)
     else if inputSize = 2 then
       Inr (alphaValue (alpha_xy expectsLn tk (inputPositionsData ! 0)
              (inputPositionsData ! (inputSize - 1))
              (inputTKStageIds ! 0) (inputTKStageIds ! (inputSize - 1))))
     else
       (let positionsData = map (\<lambda>i. inputPositionsData ! i) [0..<inputSize];
            backwardPositionsData =
              map (\<lambda>i. inputPositionsData ! (inputSize - i - 1)) [0..<inputSize];
            tkStageIds = map (\<lambda>i. inputTKStageIds ! i) [0..<inputSize];
            backwardTKStageIds =
              map (\<lambda>i. inputTKStageIds ! (inputSize - i - 1)) [0..<inputSize];
            tkStageIdsLess1 = butlast tkStageIds;
            backwardTKStageIdsLess1 = butlast backwardTKStageIds;
            lastTKPosition0 = preComputingPosition tk (tkStageIds ! (inputSize - 1));
            lastBackwardTKPosition0 =
              preComputingPosition tk (backwardTKStageIds ! (inputSize - 1));
            numContrib0 =
              lnConv expectsLn (rvsLnValue tk backwardTKStageIdsLess1 lastBackwardTKPosition0);
            denContrib0 = lnConv expectsLn (rvsLnValue tk tkStageIdsLess1 lastTKPosition0);
            loop = foldl
              (\<lambda>acc i.
                 accumulate acc
                   (lnConv expectsLn
                      (rvsLnValue tk (take (inputSize - 2 - i) backwardTKStageIds)
                         (preComputingPosition tk (backwardTKStageIds ! (inputSize - 2 - i)))))
                   (lnConv expectsLn
                      (rvsLnValue tk (take (inputSize - 2 - i) tkStageIds)
                         (preComputingPosition tk (tkStageIds ! (inputSize - 2 - i)))))
                   (alpha_vec expectsLn tk (take (inputSize - 1 - i) backwardPositionsData)
                      (take (inputSize - 1 - i) backwardTKStageIds))
                   (alpha_vec expectsLn tk (take (inputSize - 1 - i) positionsData)
                      (take (inputSize - 1 - i) tkStageIds)))
              (Inr (dadd (Fin 0) numContrib0, dadd (Fin 0) denContrib0, Fin 1, Fin 1))
              [0..<inputSize - 2]
        in case loop of
             Inl e \<Rightarrow> Inl e
           | Inr (logNumerator, logDenominator, alphasNumerator, alphasDenominator) \<Rightarrow>
              (let logNumerator' = dadd logNumerator (logTarget (backwardPositionsData ! 0));
                   logDenominator' = dadd logDenominator (logTarget (positionsData ! 0))
               in Inr (dmin (Fin 1)
                         (dmul (ddiv alphasNumerator alphasDenominator)
                               (dexp (dsub logNumerator' logDenominator')))))))"
  by pat_completeness auto
termination
  by (relation "measure (\<lambda>(e, tk, ps, ids). length ps)") simp_all

declare alpha_vec.simps [simp del]

subsection \<open>The acceptance ratio as the specification words it\<close>

text \<open>
  \<open>stageLogPdf\<close> is the log-density of the proposal of stage \<open>k\<close>: the density that the
  kernel builds from the first \<open>k\<close> stage ids, at the pre-computing position of stage id
  number \<open>k\<close>. \<open>endpointsDegenerate\<close> holds when an endpoint is out of support or has a
  log-target that is not finite.
\<close>

definition stageLogPdf :: "bool \<Rightarrow> 'v BaseTKGroup \<Rightarrow> nat list \<Rightarrow> nat \<Rightarrow> double" where
  "stageLogPdf expectsLn tk ids k =
     lnConv expectsLn (rvsLnValue tk (take k ids) (preComputingPosition tk (ids ! k)))"

definition endpointsDegenerate :: "'v MarkovChainPositionData list \<Rightarrow> bool" where
  "endpointsDegenerate ps =
     (outOfTargetSupport (ps ! 0) \<or> outOfTargetSupport (ps ! (length ps - 1))
      \<or> notFinite (logTarget (ps ! 0)) \<or> notFinite (logTarget (ps ! (length ps - 1))))"

text \<open>
  \<open>alpha_spec\<close> follows the specification: for \<open>m + 1\<close> positions the log-ratio sums the
  stage log-densities over the intermediate positions \<open>k = 1..m-1\<close>, and the products run
  over the prefixes of length \<open>k + 1\<close> for \<open>k = 1..m-1\<close>. Sums and products are taken
  from \<open>k = m - 1\<close> down to \<open>k = 1\<close>.
\<close>

function alpha_spec ::
  "bool \<Rightarrow> 'v BaseTKGroup \<Rightarrow> 'v MarkovChainPositionData list \<Rightarrow> nat list \<Rightarrow> double" where
  "alpha_spec expectsLn tk ps ids =
    (let m = length ps - 1 in
     if endpointsDegenerate ps then Fin 0
     else if m \<le> 1 then alphaValue (alpha_xy expectsLn tk (ps ! 0) (ps ! m) (ids ! 0) (ids ! m))
     else
       (let alphaNumProd = foldl dmul (Fin 1)
              (map (\<lambda>k. dsub (Fin 1)
                      (alpha_spec expectsLn tk (take (Suc k) (rev ps)) (take (Suc k) (rev ids))))
                 (rev [1..<m]));
            alphaDenProd = foldl dmul (Fin 1)
              (map (\<lambda>k. dsub (Fin 1)
                      (alpha_spec expectsLn tk (take (Suc k) ps) (take (Suc k) ids)))
                 (rev [1..<m]));
            logNum = dadd (foldl dadd (Fin 0)
                             (map (stageLogPdf expectsLn tk (rev ids)) (rev [1..<m])))
                          (logTarget (rev ps ! 0));
            logDen = dadd (foldl dadd (Fin 0)
                             (map (stageLogPdf expectsLn tk ids) (rev [1..<m])))
                          (logTarget (ps ! 0))
        in dmin (Fin 1) (dmul (ddiv alphaNumProd alphaDenProd) (dexp (dsub logNum logDen)))))"
  by pat_completeness auto
termination
  by (relation "measure (\<lambda>(e, tk, ps, ids). length ps)") auto

declare alpha_spec.simps [simp del]

text \<open>
  \<open>alpha_dram\<close> differs from \<open>alpha_spec\<close> in one place: the log-ratio sums the stage
  log-densities over \<open>k = 1..m\<close>, the last proposal included.
\<close>

function alpha_dram ::
  "bool \<Rightarrow> 'v BaseTKGroup \<Rightarrow> 'v MarkovChainPositionData list \<Rightarrow> nat list \<Rightarrow> double" where
  "alpha_dram expectsLn tk ps ids =
    (let m = length ps - 1 in
     if endpointsDegenerate ps then Fin 0
     else if m \<le> 1 then alphaValue (alpha_xy expectsLn tk (ps ! 0) (ps ! m) (ids ! 0) (ids ! m))
     else
       (let alphaNumProd = foldl dmul (Fin 1)
              (map (\<lambda>k. dsub (Fin 1)
                      (alpha_dram expectsLn tk (take (Suc k) (rev ps)) (take (Suc k) (rev ids))))
                 (rev [1..<m]));
            alphaDenProd = foldl dmul (Fin 1)
              (map (\<lambda>k. dsub (Fin 1)
                      (alpha_dram expectsLn tk (take (Suc k) ps) (take (Suc k) ids)))
                 (rev [1..<m]));
            logNum = dadd (foldl dadd (Fin 0)
                             (map (stageLogPdf expectsLn tk (rev ids)) (rev [1..<Suc m])))
                          (logTarget (rev ps ! 0));
            logDen = dadd (foldl dadd (Fin 0)
                             (map (stageLogPdf expectsLn tk ids) (rev [1..<Suc m])))
                          (logTarget (ps ! 0))
        in dmin (Fin 1) (dmul (ddiv alphaNumProd alphaDenProd) (dexp (dsub logNum logDen)))))"
  by pat_completeness auto
termination
  by (relation "measure (\<lambda>(e, tk, ps, ids). length ps)") auto

declare alpha_dram.simps [simp del]

section \<open>The sampler: options, collaborators and state\<close>

text \<open>The options of \<open>MhOptionsValues\<close> that the chain generation reads.\<close>

record MhOptionsValues =
  putOutOfBoundsInChain :: bool
  drMaxNumExtraStages :: nat
  drDuringAmNonAdaptiveInt :: bool
  tkUseLocalHessian :: bool
  amInitialNonAdaptInterval :: nat
  amAdaptInterval :: nat
  amEta :: double
  amEpsilon :: double

text \<open>
  Modelled from the spec: the state of the transition kernel, whose class is not among
  the verified source files. It holds the table of pre-computing positions keyed by stage id and
  the base covariance of the proposal. \<open>clearPreComputingPositions\<close> empties the table,
  \<open>setPreComputingPosition\<close> stores a position under an id and returns whether it is
  valid, \<open>updateLawCovMatrix\<close> replaces the base covariance.
\<close>

record ('v, 'm) tk_state =
  preComputingPositions :: "nat \<Rightarrow> 'v option"
  lawCovMatrix :: 'm

text \<open>
  The collaborators of the sampler, none of them among the verified source files, are the
  fields of one record: the build flag, the support test of the target, the target
  evaluator (returning its value, the log-prior and the log-likelihood), the stream of
  vectors that the kernel's realizers deliver, the stream of uniform samples, the validity
  of a pre-computing position, the kernel's densities, and the vector and matrix
  operations, with the Cholesky factorisation \<open>chol\<close> returning its code (0 on success)
  and the code \<open>UQ_MATRIX_IS_NOT_POS_DEFINITE_RC\<close>.
\<close>

record ('v, 'm) environment =
  expectsLnLikelihood :: bool
  contains :: "'v \<Rightarrow> bool"
  callFunction :: "'v \<Rightarrow> double \<times> double \<times> double"
  realization :: "nat \<Rightarrow> 'v"
  uniformSample :: "nat \<Rightarrow> double"
  tkValid :: "'v \<Rightarrow> nat \<Rightarrow> bool"
  tkSymmetric :: bool
  tkRvLnValue :: "('v, 'm) tk_state \<Rightarrow> nat \<Rightarrow> 'v \<Rightarrow> double"
  tkRvsLnValue :: "('v, 'm) tk_state \<Rightarrow> nat list \<Rightarrow> 'v \<Rightarrow> double"
  zeroVector :: 'v
  newVector :: 'v
  newMatrix :: 'm
  newDiagMatrix :: "double \<Rightarrow> 'm"
  subMeanPlain :: "'v list \<Rightarrow> 'v"
  matrixProduct :: "'v \<Rightarrow> 'v \<Rightarrow> 'm"
  vminus :: "'v \<Rightarrow> 'v \<Rightarrow> 'v"
  vplus :: "'v \<Rightarrow> 'v \<Rightarrow> 'v"
  vscale :: "double \<Rightarrow> 'v \<Rightarrow> 'v"
  mplus :: "'m \<Rightarrow> 'm \<Rightarrow> 'm"
  mscale :: "double \<Rightarrow> 'm \<Rightarrow> 'm"
  mdivide :: "'m \<Rightarrow> double \<Rightarrow> 'm"
  chol :: "'m \<Rightarrow> int"
  notPosDefiniteRC :: int

definition clearPreComputingPositions :: "('v, 'm) tk_state \<Rightarrow> ('v, 'm) tk_state" where
  "clearPreComputingPositions t = t\<lparr>preComputingPositions := (\<lambda>_. None)\<rparr>"

definition setPreComputingPosition ::
  "('v, 'm) environment \<Rightarrow> 'v \<Rightarrow> nat \<Rightarrow> ('v, 'm) tk_state \<Rightarrow> bool \<times> ('v, 'm) tk_state" where
  "setPreComputingPosition E v localId t =
     (tkValid E v localId, t\<lparr>preComputingPositions := (preComputingPositions t)(localId \<mapsto> v)\<rparr>)"

definition updateLawCovMatrix :: "'m \<Rightarrow> ('v, 'm) tk_state \<Rightarrow> ('v, 'm) tk_state" where
  "updateLawCovMatrix c t = t\<lparr>lawCovMatrix := c\<rparr>"

text \<open>The kernel as the acceptance functions see it in a given state.\<close>

definition tkView :: "('v, 'm) environment \<Rightarrow> ('v, 'm) tk_state \<Rightarrow> 'v BaseTKGroup" where
  "tkView E t =
     \<lparr> symmetric = tkSymmetric E, rvLnValue = tkRvLnValue E t, rvsLnValue = tkRvsLnValue E t,
       preComputingPosition =
         (\<lambda>stageId. case preComputingPositions t stageId of Some v \<Rightarrow> v | None \<Rightarrow> zeroVector E) \<rparr>"

text \<open>
  The state of the sampler during \<open>generateFullChain\<close>: the counters of
  \<open>m_rawChainInfo\<close>, the chain (a position is \<open>None\<close> until it is set), the kernel, and the
  three members of adaptive Metropolis (\<open>None\<close> is the null pointer). Four more fields
  record what the run takes from its collaborators: how many vectors and uniform samples
  it has drawn, how many of the drawn vectors were outside the support, and the points
  passed to the target evaluator (most recent first). Timers, display output and the
  optional sequences of log-likelihood and log-target values are left out.
\<close>

record ('v, 'm) sampler_state =
  numTargetCalls :: nat
  numDRs :: nat
  numOutOfTargetSupport :: nat
  numOutOfTargetSupportInDR :: nat
  numRejections :: nat
  workingChain :: "'v option list"
  tkState :: "('v, 'm) tk_state"
  lastChainSize :: double
  lastMean :: "'v option"
  lastAdaptedCovMatrix :: "'m option"
  numRealizations :: nat
  numUniformSamples :: nat
  numOutOfSupportRealizations :: nat
  targetCalls :: "'v list"

section \<open>Chain generation: \<open>generateFullChain\<close>\<close>

subsection \<open>Drawing a candidate\<close>

text \<open>
  The loop \<open>while (keepGeneratingCandidates)\<close>, the same in the main step and in a
  delayed-rejection stage. It takes vector number \<open>n\<close> of the stream and tests it; \<open>d\<close>
  counts the vectors drawn outside the support. Without \<open>putOutOfBoundsInChain\<close> it
  draws again as long as the vector is outside the support, and may never return.
\<close>

partial_function (option) generateCandidate ::
  "('v \<Rightarrow> bool) \<Rightarrow> (nat \<Rightarrow> 'v) \<Rightarrow> bool \<Rightarrow> nat \<Rightarrow> nat \<Rightarrow> ('v \<times> bool \<times> nat \<times> nat) option" where
  "generateCandidate inSupport draws putOut n d =
    (let tmpVecValues = draws n;
         outOfSupport = \<not> inSupport tmpVecValues;
         n' = Suc n;
         d' = (if outOfSupport then Suc d else d);
         keepGeneratingCandidates = (if putOut then False else outOfSupport)
     in if keepGeneratingCandidates then generateCandidate inSupport draws putOut n' d'
        else Some (tmpVecValues, outOfSupport, n', d'))"

subsection \<open>Evaluating the target at a candidate\<close>

text \<open>
  The block that follows each draw: outside the support the counter of the place
  (\<open>numOutOfTargetSupport\<close> in the main step, \<open>numOutOfTargetSupportInDR\<close> in a stage) is
  incremented and the three logarithms are set to \<open>-INFINITY\<close>; inside, the evaluator is
  called, its value converted, and \<open>numTargetCalls\<close> incremented. The result is the
  candidate set by \<open>currentCandidateData.set\<close>.
\<close>

definition evaluateTarget ::
  "('v, 'm) environment \<Rightarrow> bool \<Rightarrow> 'v \<Rightarrow> bool \<Rightarrow> ('v, 'm) sampler_state
    \<Rightarrow> 'v MarkovChainPositionData \<times> ('v, 'm) sampler_state" where
  "evaluateTarget E inDR tmpVecValues outOfSupport st =
    (if outOfSupport then
       (\<lparr> vecValues = tmpVecValues, outOfTargetSupport = outOfSupport,
           logLikelihood = NInf, logTarget = NInf \<rparr>,
        if inDR then st\<lparr>numOutOfTargetSupportInDR := Suc (numOutOfTargetSupportInDR st)\<rparr>
        else st\<lparr>numOutOfTargetSupport := Suc (numOutOfTargetSupport st)\<rparr>)
     else
       (case callFunction E tmpVecValues of
          (val, logPrior, logLik) \<Rightarrow>
            (\<lparr> vecValues = tmpVecValues, outOfTargetSupport = outOfSupport,
                logLikelihood = logLik, logTarget = lnConv (expectsLnLikelihood E) val \<rparr>,
             st\<lparr>numTargetCalls := Suc (numTargetCalls st),
                targetCalls := tmpVecValues # targetCalls st\<rparr>)))"

subsection \<open>Points 1/6 and 2/6: the first candidate and its acceptance\<close>

text \<open>
  The result holds \<open>accept\<close>, \<open>outOfTargetSupport\<close>, \<open>validPreComputingPosition\<close>, the
  candidate and the state. An invalid pre-computing position for the current position is
  fatal.
\<close>

definition proposeCandidate ::
  "('v, 'm) environment \<Rightarrow> MhOptionsValues \<Rightarrow> 'v MarkovChainPositionData \<Rightarrow> ('v, 'm) sampler_state
    \<Rightarrow> (error + bool \<times> bool \<times> bool \<times> 'v MarkovChainPositionData \<times> ('v, 'm) sampler_state) option"
  where
  "proposeCandidate E ov currentPositionData st =
    (case setPreComputingPosition E (vecValues currentPositionData) 0
            (clearPreComputingPositions (tkState st)) of
       (validPre0, tk1) \<Rightarrow>
         if \<not> validPre0 then Some (Inl InvalidInitialPreComputingPosition)
         else
           (case generateCandidate (contains E) (realization E) (putOutOfBoundsInChain ov)
                   (numRealizations st) (numOutOfSupportRealizations st) of
              None \<Rightarrow> None
            | Some (tmpVecValues, outOfSupport, n', d') \<Rightarrow>
               (case setPreComputingPosition E tmpVecValues 1 tk1 of
                  (validPre, tk2) \<Rightarrow>
                    (case evaluateTarget E False tmpVecValues outOfSupport
                            (st\<lparr>tkState := tk2, numRealizations := n',
                                numOutOfSupportRealizations := d'\<rparr>) of
                       (currentCandidateData, st1) \<Rightarrow>
                         if outOfSupport then
                           Some (Inr (False, outOfSupport, validPre, currentCandidateData, st1))
                         else
                           (case acceptAlpha (uniformSample E)
                                   (alphaValue (alpha_xy (expectsLnLikelihood E)
                                      (tkView E (tkState st1))
                                      currentPositionData currentCandidateData 0 1))
                                   (numUniformSamples st1) of
                              (acc, nu) \<Rightarrow>
                                Some (Inr (acc, outOfSupport, validPre, currentCandidateData,
                                           st1\<lparr>numUniformSamples := nu\<rparr>)))))))"

subsection \<open>Point 3/6: delayed rejection\<close>

text \<open>
  One pass of the stage loop, entered with the stage id already incremented. The result
  holds \<open>validPreComputingPosition\<close>, \<open>accept\<close>, the positions and stage ids with the new
  candidate appended, the candidate and the state.
\<close>

definition drStage ::
  "('v, 'm) environment \<Rightarrow> MhOptionsValues \<Rightarrow> nat \<Rightarrow> bool
    \<Rightarrow> 'v MarkovChainPositionData list \<Rightarrow> nat list \<Rightarrow> ('v, 'm) sampler_state
    \<Rightarrow> (error + bool \<times> bool \<times> 'v MarkovChainPositionData list \<times> nat list
          \<times> 'v MarkovChainPositionData \<times> ('v, 'm) sampler_state) option" where
  "drStage E ov stageId accept drPositionsData tkStageIds st =
    (case generateCandidate (contains E) (realization E) (putOutOfBoundsInChain ov)
            (numRealizations st) (numOutOfSupportRealizations st) of
       None \<Rightarrow> None
     | Some (tmpVecValues, outOfSupport, n', d') \<Rightarrow>
        (case setPreComputingPosition E tmpVecValues (stageId + 1) (tkState st) of
           (validPre, tk1) \<Rightarrow>
             (case evaluateTarget E True tmpVecValues outOfSupport
                     (st\<lparr>tkState := tk1, numRealizations := n',
                         numOutOfSupportRealizations := d'\<rparr>) of
                (currentCandidateData, st1) \<Rightarrow>
                  (let drPositionsData' = drPositionsData @ [currentCandidateData];
                       tkStageIds' = tkStageIds @ [stageId + 1]
                   in if outOfSupport then
                        Some (Inr (validPre, accept, drPositionsData', tkStageIds',
                                   currentCandidateData, st1))
                      else
                        (case alpha_vec (expectsLnLikelihood E) (tkView E (tkState st1))
                                drPositionsData' tkStageIds' of
                           Inl err \<Rightarrow> Some (Inl err)
                         | Inr alphaDR \<Rightarrow>
                            (case acceptAlpha (uniformSample E) alphaDR (numUniformSamples st1) of
                               (acc, nu) \<Rightarrow>
                                 Some (Inr (validPre, acc, drPositionsData', tkStageIds',
                                            currentCandidateData,
                                            st1\<lparr>numUniformSamples := nu\<rparr>))))))))"

text \<open>
  The stage loop \<open>while (validPreComputingPosition && !accept && stageId < K)\<close>. The
  result holds \<open>accept\<close>, the last candidate and the state.
\<close>

function drLoop ::
  "('v, 'm) environment \<Rightarrow> MhOptionsValues \<Rightarrow> nat \<Rightarrow> bool \<Rightarrow> bool
    \<Rightarrow> 'v MarkovChainPositionData list \<Rightarrow> nat list \<Rightarrow> 'v MarkovChainPositionData
    \<Rightarrow> ('v, 'm) sampler_state
    \<Rightarrow> (error + bool \<times> 'v MarkovChainPositionData \<times> ('v, 'm) sampler_state) option" where
  "drLoop E ov stageId validPre accept drPositionsData tkStageIds currentCandidateData st =
    (if validPre \<and> \<not> accept \<and> stageId < drMaxNumExtraStages ov then
       (case drStage E ov (Suc stageId) accept drPositionsData tkStageIds
               (st\<lparr>numDRs := Suc (numDRs st)\<rparr>) of
          None \<Rightarrow> None
        | Some (Inl err) \<Rightarrow> Some (Inl err)
        | Some (Inr (validPre', accept', drPositionsData', tkStageIds', cand', st')) \<Rightarrow>
            drLoop E ov (Suc stageId) validPre' accept' drPositionsData' tkStageIds' cand' st')
     else Some (Inr (accept, currentCandidateData, st)))"
  by pat_completeness auto
termination
  by (relation "measure (\<lambda>(E, ov, stageId, rest). drMaxNumExtraStages ov - stageId)") auto

declare drLoop.simps [simp del]

text \<open>
  The test that keeps delayed rejection away from the non-adaptive interval of adaptive
  Metropolis.
\<close>

definition avoidDR :: "MhOptionsValues \<Rightarrow> nat \<Rightarrow> bool" where
  "avoidDR ov positionId =
     (\<not> drDuringAmNonAdaptiveInt ov \<and> \<not> tkUseLocalHessian ov
      \<and> 0 < amInitialNonAdaptInterval ov \<and> 0 < amAdaptInterval ov
      \<and> positionId \<le> amInitialNonAdaptInterval ov)"

definition delayedRejection ::
  "('v, 'm) environment \<Rightarrow> MhOptionsValues \<Rightarrow> nat \<Rightarrow> 'v MarkovChainPositionData
    \<Rightarrow> bool \<Rightarrow> bool \<Rightarrow> bool \<Rightarrow> 'v MarkovChainPositionData \<Rightarrow> ('v, 'm) sampler_state
    \<Rightarrow> (error + bool \<times> 'v MarkovChainPositionData \<times> ('v, 'm) sampler_state) option" where
  "delayedRejection E ov positionId currentPositionData accept outOfSupport validPre
       currentCandidateData st =
    (if \<not> accept \<and> \<not> outOfSupport \<and> 0 < drMaxNumExtraStages ov then
       (if avoidDR ov positionId then Some (Inr (accept, currentCandidateData, st))
        else drLoop E ov 0 validPre accept [currentPositionData, currentCandidateData] [0, 1]
               currentCandidateData st)
     else Some (Inr (accept, currentCandidateData, st)))"

subsection \<open>Point 4/6: updating the chain\<close>

text \<open>
  Modelled from the spec: the chain buffer, whose class is not among the verified source
  files, is a fixed-capacity sequence; reading or writing a position outside it, or
  reading a position that was never set, is fatal.
\<close>

definition resizeSequence :: "nat \<Rightarrow> 'v option list \<Rightarrow> 'v option list" where
  "resizeSequence n chain = take n chain @ replicate (n - length chain) None"

definition setPositionValues :: "'v option list \<Rightarrow> nat \<Rightarrow> 'v \<Rightarrow> error + 'v option list" where
  "setPositionValues chain i v =
     (if i < length chain then Inr (chain[i := Some v]) else Inl PositionOutOfSequence)"

definition getPositionValues :: "'v option list \<Rightarrow> nat \<Rightarrow> error + 'v" where
  "getPositionValues chain i =
     (if i < length chain then (case chain ! i of Some v \<Rightarrow> Inr v | None \<Rightarrow> Inl NullPointer)
      else Inl PositionOutOfSequence)"

definition updateChain ::
  "nat \<Rightarrow> 'v MarkovChainPositionData \<Rightarrow> bool \<Rightarrow> 'v MarkovChainPositionData
    \<Rightarrow> ('v, 'm) sampler_state \<Rightarrow> error + 'v MarkovChainPositionData \<times> ('v, 'm) sampler_state" where
  "updateChain positionId currentPositionData accept currentCandidateData st =
    (if accept then
       (case setPositionValues (workingChain st) positionId (vecValues currentCandidateData) of
          Inl err \<Rightarrow> Inl err
        | Inr chain \<Rightarrow> Inr (currentCandidateData, st\<lparr>workingChain := chain\<rparr>))
     else
       (case setPositionValues (workingChain st) positionId (vecValues currentPositionData) of
          Inl err \<Rightarrow> Inl err
        | Inr chain \<Rightarrow>
            Inr (currentPositionData,
                 st\<lparr>workingChain := chain, numRejections := Suc (numRejections st)\<rparr>)))"

subsection \<open>Point 5/6: adaptive Metropolis\<close>

text \<open>
  The test "is now the moment to adapt": the result holds
  \<open>idOfFirstPositionInSubChain\<close>, the size given to \<open>partialChain\<close> (0 when nothing is
  adapted), and whether \<open>m_lastMean\<close> and \<open>m_lastAdaptedCovMatrix\<close> are allocated.
\<close>

definition amWindow :: "MhOptionsValues \<Rightarrow> nat \<Rightarrow> nat \<times> nat \<times> bool" where
  "amWindow ov positionId =
    (if positionId < amInitialNonAdaptInterval ov then (0, 0, False)
     else if positionId = amInitialNonAdaptInterval ov then
       (0, amInitialNonAdaptInterval ov + 1, True)
     else
       (let interval = positionId - amInitialNonAdaptInterval ov
        in if interval mod amAdaptInterval ov = 0 then
             (positionId - amAdaptInterval ov, amAdaptInterval ov, False)
           else (0, 0, False)))"

text \<open>The chain positions that an adaptation at \<open>positionId\<close> copies into \<open>partialChain\<close>.\<close>

definition amConsumed :: "MhOptionsValues \<Rightarrow> nat \<Rightarrow> nat list" where
  "amConsumed ov positionId =
     (case amWindow ov positionId of (first, subSize, alloc) \<Rightarrow> [first..<first + subSize])"

fun collectPositions :: "'v option list \<Rightarrow> nat list \<Rightarrow> error + 'v list" where
  "collectPositions chain [] = Inr []"
| "collectPositions chain (i # js) =
     (case getPositionValues chain i of
        Inl err \<Rightarrow> Inl err
      | Inr v \<Rightarrow> (case collectPositions chain js of Inl err \<Rightarrow> Inl err | Inr vs \<Rightarrow> Inr (v # vs)))"

text \<open>\<open>updateAdaptedCovMatrix\<close>; the result holds the three updated reference arguments.\<close>

definition updateAdaptedCovMatrix ::
  "('v, 'm) environment \<Rightarrow> 'v list \<Rightarrow> nat \<Rightarrow> double \<Rightarrow> 'v \<Rightarrow> 'm \<Rightarrow> error + double \<times> 'v \<times> 'm" where
  "updateAdaptedCovMatrix E partialChain idOfFirstPositionInSubChain lastSize lastMeanV lastCov =
    (let doubleSubChainSize = Fin (real (length partialChain)) in
     if deq lastSize (Fin 0) then
       (if length partialChain < 2 then Inl PartialChainSizeLessThan2
        else
          (let lastMean' = subMeanPlain E partialChain;
               cov0 = mscale E (dneg doubleSubChainSize) (matrixProduct E lastMean' lastMean');
               cov1 = foldl (\<lambda>c tmpVec. mplus E c (matrixProduct E tmpVec tmpVec)) cov0 partialChain;
               cov2 = mdivide E cov1 (dsub doubleSubChainSize (Fin 1))
           in Inr (dadd lastSize doubleSubChainSize, lastMean', cov2)))
     else
       (if length partialChain < 1 then Inl PartialChainSizeLessThan1
        else if idOfFirstPositionInSubChain < 1 then Inl IdOfFirstPositionLessThan1
        else
          (case foldl
                  (\<lambda>(cov, mean) i.
                     (let doubleCurrentId = Fin (real (idOfFirstPositionInSubChain + i));
                          tmpVec = partialChain ! i;
                          diffVec = vminus E tmpVec mean;
                          ratio1 = dsub (Fin 1) (ddiv (Fin 1) doubleCurrentId);
                          ratio2 = ddiv (Fin 1) (dadd (Fin 1) doubleCurrentId)
                      in (mplus E (mscale E ratio1 cov)
                            (mscale E ratio2 (matrixProduct E diffVec diffVec)),
                          vplus E mean (vscale E ratio2 diffVec))))
                  (lastCov, lastMeanV) [0..<length partialChain] of
             (cov', mean') \<Rightarrow> Inr (dadd lastSize doubleSubChainSize, mean', cov'))))"

text \<open>
  The refresh of the proposal covariance after \<open>updateAdaptedCovMatrix\<close>. The result
  holds the matrices that \<open>chol\<close> was called on, in order, and the outcome: a fatal error,
  \<open>None\<close> when the kernel is left as it is, or the matrix given to \<open>updateLawCovMatrix\<close>.
\<close>

definition refreshProposalCov ::
  "('v, 'm) environment \<Rightarrow> MhOptionsValues \<Rightarrow> 'm \<Rightarrow> 'm list \<times> (error + 'm option)" where
  "refreshProposalCov E ov lastCov =
    (let tmpChol = lastCov;
         attemptedMatrix = tmpChol;
         iRC = chol E tmpChol
     in if iRC \<noteq> 0 then
          (if iRC \<noteq> notPosDefiniteRC E then ([tmpChol], Inl InvalidFirstCholReturnCode)
           else
             (let tmpDiag = newDiagMatrix E (amEpsilon ov);
                  tmpChol2 = mplus E lastCov tmpDiag;
                  attemptedMatrix2 = tmpChol2;
                  iRC2 = chol E tmpChol2
              in if iRC2 \<noteq> 0 then
                   (if iRC2 \<noteq> notPosDefiniteRC E then
                      ([tmpChol, tmpChol2], Inl InvalidSecondCholReturnCode)
                    else ([tmpChol, tmpChol2], Inr None))
                 else ([tmpChol, tmpChol2], Inr (Some (mscale E (amEta ov) attemptedMatrix2)))))
        else ([tmpChol], Inr (Some (mscale E (amEta ov) attemptedMatrix))))"

text \<open>
  The guard of the adaptation block, and the block itself. Dereferencing \<open>m_lastMean\<close> or
  \<open>m_lastAdaptedCovMatrix\<close> while it is null is modelled as a fatal error.
\<close>

definition amEnabled :: "MhOptionsValues \<Rightarrow> bool" where
  "amEnabled ov =
     (\<not> tkUseLocalHessian ov \<and> 0 < amInitialNonAdaptInterval ov \<and> 0 < amAdaptInterval ov)"

definition adaptStep ::
  "('v, 'm) environment \<Rightarrow> MhOptionsValues \<Rightarrow> nat \<Rightarrow> ('v, 'm) sampler_state
    \<Rightarrow> error + ('v, 'm) sampler_state" where
  "adaptStep E ov positionId st =
    (if amEnabled ov then
       (case amWindow ov positionId of
          (idOfFirstPositionInSubChain, subSize, alloc) \<Rightarrow>
            (let st1 = (if alloc then st\<lparr>lastMean := Some (newVector E),
                                         lastAdaptedCovMatrix := Some (newMatrix E)\<rparr>
                        else st)
             in if 0 < subSize then
                  (case collectPositions (workingChain st1)
                          [idOfFirstPositionInSubChain..<idOfFirstPositionInSubChain + subSize] of
                     Inl err \<Rightarrow> Inl err
                   | Inr partialChain \<Rightarrow>
                      (case (lastMean st1, lastAdaptedCovMatrix st1) of
                         (Some lm, Some lc) \<Rightarrow>
                           (case updateAdaptedCovMatrix E partialChain idOfFirstPositionInSubChain
                                   (lastChainSize st1) lm lc of
                              Inl err \<Rightarrow> Inl err
                            | Inr (subSize', mean', cov') \<Rightarrow>
                               (let st2 = st1\<lparr>lastChainSize := subSize', lastMean := Some mean',
                                              lastAdaptedCovMatrix := Some cov'\<rparr>
                                in case snd (refreshProposalCov E ov cov') of
                                     Inl err \<Rightarrow> Inl err
                                   | Inr None \<Rightarrow> Inr st2
                                   | Inr (Some c) \<Rightarrow>
                                       Inr (st2\<lparr>tkState := updateLawCovMatrix c (tkState st2)\<rparr>)))
                       | _ \<Rightarrow> Inl NullPointer))
                else Inr st1))
     else Inr st)"

subsection \<open>One chain position, the chain loop and the whole generation\<close>

definition chainStep ::
  "('v, 'm) environment \<Rightarrow> MhOptionsValues \<Rightarrow> nat \<Rightarrow> 'v MarkovChainPositionData
    \<Rightarrow> ('v, 'm) sampler_state
    \<Rightarrow> (error + 'v MarkovChainPositionData \<times> ('v, 'm) sampler_state) option" where
  "chainStep E ov positionId currentPositionData st =
    (case proposeCandidate E ov currentPositionData st of
       None \<Rightarrow> None
     | Some (Inl err) \<Rightarrow> Some (Inl err)
     | Some (Inr (accept, outOfSupport, validPre, cand, st1)) \<Rightarrow>
        (case delayedRejection E ov positionId currentPositionData accept outOfSupport validPre
                cand st1 of
           None \<Rightarrow> None
         | Some (Inl err) \<Rightarrow> Some (Inl err)
         | Some (Inr (accept', cand', st2)) \<Rightarrow>
            (case updateChain positionId currentPositionData accept' cand' st2 of
               Inl err \<Rightarrow> Some (Inl err)
             | Inr (cur', st3) \<Rightarrow>
                (case adaptStep E ov positionId st3 of
                   Inl err \<Rightarrow> Some (Inl err)
                 | Inr st4 \<Rightarrow> Some (Inr (cur', st4))))))"

text \<open>
  The loop \<open>for (positionId = 1; positionId < workingChain.subSequenceSize(); ++positionId)\<close>;
  the subSize of the chain does not change during the loop and is the argument \<open>chainSize\<close>.
\<close>

function chainLoop ::
  "('v, 'm) environment \<Rightarrow> MhOptionsValues \<Rightarrow> nat \<Rightarrow> nat \<Rightarrow> 'v MarkovChainPositionData
    \<Rightarrow> ('v, 'm) sampler_state
    \<Rightarrow> (error + 'v MarkovChainPositionData \<times> ('v, 'm) sampler_state) option" where
  "chainLoop E ov chainSize positionId currentPositionData st =
    (if positionId < chainSize then
       (case chainStep E ov positionId currentPositionData st of
          None \<Rightarrow> None
        | Some (Inl err) \<Rightarrow> Some (Inl err)
        | Some (Inr (cur', st')) \<Rightarrow> chainLoop E ov chainSize (Suc positionId) cur' st')
     else Some (Inr (currentPositionData, st)))"
  by pat_completeness auto
termination
  by (relation "measure (\<lambda>(E, ov, chainSize, positionId, rest). chainSize - positionId)") auto

declare chainLoop.simps [simp del]

text \<open>
  \<open>generateFullChain\<close>, for the process that generates the chain (the other processes of
  a subdivided environment only wait and fill their chain with multiples of the first
  position). The argument \<open>st0\<close> is the sampler on entry; its counters are reset. The result
  is \<open>None\<close> if the generation never returns, a fatal error, or the sampler on return.
\<close>

definition resetInfo :: "('v, 'm) sampler_state \<Rightarrow> ('v, 'm) sampler_state" where
  "resetInfo st = st\<lparr>numTargetCalls := 0, numDRs := 0, numOutOfTargetSupport := 0,
     numOutOfTargetSupportInDR := 0, numRejections := 0, numRealizations := 0,
     numUniformSamples := 0, numOutOfSupportRealizations := 0, targetCalls := []\<rparr>"

definition generateFullChain ::
  "('v, 'm) environment \<Rightarrow> MhOptionsValues \<Rightarrow> 'v \<Rightarrow> nat \<Rightarrow> ('v, 'm) sampler_state
    \<Rightarrow> (error + ('v, 'm) sampler_state) option" where
  "generateFullChain E ov valuesOf1stPosition chainSize st0 =
    (let st = resetInfo st0;
         outOfSupport = \<not> contains E valuesOf1stPosition
     in if outOfSupport then Some (Inl InitialPositionOutOfSupport)
        else
          (case callFunction E valuesOf1stPosition of
             (val, logPrior, logLik) \<Rightarrow>
               (let currentPositionData =
                      \<lparr> vecValues = valuesOf1stPosition, outOfTargetSupport = outOfSupport,
                        logLikelihood = logLik,
                        logTarget = lnConv (expectsLnLikelihood E) val \<rparr>;
                    st1 = st\<lparr>numTargetCalls := Suc (numTargetCalls st),
                             targetCalls := valuesOf1stPosition # targetCalls st,
                             workingChain := resizeSequence chainSize (workingChain st)\<rparr>
                in case setPositionValues (workingChain st1) 0 (vecValues currentPositionData) of
                     Inl err \<Rightarrow> Some (Inl err)
                   | Inr chain \<Rightarrow>
                      (case chainLoop E ov chainSize 1 currentPositionData
                              (st1\<lparr>workingChain := chain\<rparr>) of
                         None \<Rightarrow> None
                       | Some (Inl err) \<Rightarrow> Some (Inl err)
                       | Some (Inr (cur, st')) \<Rightarrow> Some (Inr st')))))"

section \<open>Example data\<close>

text \<open>
  A symmetric kernel on positions that are natural numbers: the pre-computing position of
  stage id \<open>s\<close> is \<open>s\<close>, and every stage density has log-value \<open>v\<close> at position \<open>v\<close>.
  \<open>exPos v t\<close> is an in-support position \<open>v\<close> with log-target \<open>t\<close>.
\<close>

definition exTK :: "nat BaseTKGroup" where
  "exTK = \<lparr> symmetric = True, rvLnValue = (\<lambda>_ _. Fin 0),
            rvsLnValue = (\<lambda>_ v. Fin (real v)), preComputingPosition = (\<lambda>s. s) \<rparr>"

definition exPos :: "nat \<Rightarrow> real \<Rightarrow> nat MarkovChainPositionData" where
  "exPos v t = \<lparr> vecValues = v, outOfTargetSupport = False, logLikelihood = Fin 0,
                 logTarget = Fin t \<rparr>"

definition exPosT :: "nat \<Rightarrow> bool \<Rightarrow> double \<Rightarrow> nat MarkovChainPositionData" where
  "exPosT v out t = \<lparr> vecValues = v, outOfTargetSupport = out, logLikelihood = Fin 0,
                      logTarget = t \<rparr>"

definition uConst :: "double \<Rightarrow> nat \<Rightarrow> double" where
  "uConst c n = c"

text \<open>
  A one-dimensional sampler: positions and matrices are doubles, the support is
  \<open>x \<ge> 0\<close>, the kernel is symmetric and always valid, every uniform sample is \<open>1/2\<close>,
  and \<open>chol\<close> succeeds on a positive number, returns the code \<open>1\<close> on NaN and the code
  \<open>-1\<close> (not positive definite) otherwise. The stream of drawn vectors and the target are arguments.
\<close>

definition exEnv :: "(nat \<Rightarrow> double) \<Rightarrow> (double \<Rightarrow> double) \<Rightarrow> (double, double) environment" where
  "exEnv draws target =
    \<lparr> expectsLnLikelihood = True,
      contains = (\<lambda>x. dle (Fin 0) x),
      callFunction = (\<lambda>x. (target x, Fin 0, target x)),
      realization = draws,
      uniformSample = uConst (Fin (1 / 2)),
      tkValid = (\<lambda>_ _. True),
      tkSymmetric = True,
      tkRvLnValue = (\<lambda>_ _ _. Fin 0),
      tkRvsLnValue = (\<lambda>_ _ _. Fin 0),
      zeroVector = Fin 0,
      newVector = Fin 0,
      newMatrix = Fin 0,
      newDiagMatrix = (\<lambda>d. d),
      subMeanPlain = (\<lambda>vs. ddiv (foldl dadd (Fin 0) vs) (Fin (real (length vs)))),
      matrixProduct = dmul,
      vminus = dsub,
      vplus = dadd,
      vscale = dmul,
      mplus = dadd,
      mscale = dmul,
      mdivide = ddiv,
      chol = (\<lambda>c. if isnan c then 1 else if dless (Fin 0) c then 0 else - 1),
      notPosDefiniteRC = - 1 \<rparr>"

text \<open>
  Options with the scaled-covariance kernel: \<open>exOptions putOut K init adapt\<close> sets
  \<open>putOutOfBoundsInChain\<close>, the number of extra stages and the two intervals of adaptive
  Metropolis; \<open>eta\<close> is 2 and \<open>epsilon\<close> is 3.
\<close>

definition exOptions :: "bool \<Rightarrow> nat \<Rightarrow> nat \<Rightarrow> nat \<Rightarrow> MhOptionsValues" where
  "exOptions putOut K init adapt =
    \<lparr> putOutOfBoundsInChain = putOut, drMaxNumExtraStages = K,
      drDuringAmNonAdaptiveInt = True, tkUseLocalHessian = False,
      amInitialNonAdaptInterval = init, amAdaptInterval = adapt,
      amEta = Fin 2, amEpsilon = Fin 3 \<rparr>"

text \<open>A sampler as its constructor leaves it, with proposal covariance 1.\<close>

definition exSampler :: "(double, double) sampler_state" where
  "exSampler =
    \<lparr> numTargetCalls = 0, numDRs = 0, numOutOfTargetSupport = 0,
      numOutOfTargetSupportInDR = 0, numRejections = 0, workingChain = [],
      tkState = \<lparr> preComputingPositions = (\<lambda>_. None), lawCovMatrix = Fin 1 \<rparr>,
      lastChainSize = Fin 0, lastMean = None, lastAdaptedCovMatrix = None,
      numRealizations = 0, numUniformSamples = 0, numOutOfSupportRealizations = 0,
      targetCalls = [] \<rparr>"

section \<open>Relations between sampler states\<close>

text \<open>
  The predicates below relate the sampler before and after a part of the generation; the
  properties of a whole run are proved from them. \<open>candidateOk\<close> describes the result of
  drawing a candidate; \<open>amSame\<close> says that the members of adaptive Metropolis and the
  kernel's covariance are unchanged; \<open>countsRel\<close> relates the counters of out-of-support
  candidates to the number of stages and of out-of-support draws, and bounds the points
  given to the target evaluator; \<open>phaseRel\<close> and \<open>runRel\<close> combine them for a part of a
  chain position and for whole chain positions.
\<close>

definition candidateOk ::
  "('v \<Rightarrow> bool) \<Rightarrow> bool \<Rightarrow> nat \<Rightarrow> nat \<Rightarrow> 'v \<times> bool \<times> nat \<times> nat \<Rightarrow> bool" where
  "candidateOk inS putOut n d r =
     (case r of (v, oos, n', d') \<Rightarrow>
        oos = (\<not> inS v) \<and> n < n' \<and> d \<le> d'
        \<and> (putOut \<longrightarrow> n' = Suc n \<and> d' = (if oos then Suc d else d))
        \<and> (\<not> putOut \<longrightarrow> \<not> oos))"

definition amSame :: "('v, 'm) sampler_state \<Rightarrow> ('v, 'm) sampler_state \<Rightarrow> bool" where
  "amSame st st' =
     (lastMean st' = lastMean st \<and> lastAdaptedCovMatrix st' = lastAdaptedCovMatrix st
      \<and> lastChainSize st' = lastChainSize st
      \<and> lawCovMatrix (tkState st') = lawCovMatrix (tkState st))"

definition countsRel ::
  "('v, 'm) environment \<Rightarrow> MhOptionsValues \<Rightarrow> ('v, 'm) sampler_state \<Rightarrow> ('v, 'm) sampler_state \<Rightarrow> bool"
  where
  "countsRel E ov st st' =
     (set (targetCalls st') \<subseteq> set (targetCalls st) \<union> Collect (contains E)
      \<and> numOutOfTargetSupportInDR st' + numDRs st \<le> numDRs st' + numOutOfTargetSupportInDR st
      \<and> (putOutOfBoundsInChain ov \<longrightarrow>
            numOutOfTargetSupport st' + numOutOfTargetSupportInDR st'
              + numOutOfSupportRealizations st
            = numOutOfTargetSupport st + numOutOfTargetSupportInDR st
              + numOutOfSupportRealizations st')
      \<and> (\<not> putOutOfBoundsInChain ov \<longrightarrow>
            numOutOfTargetSupport st' = numOutOfTargetSupport st
            \<and> numOutOfTargetSupportInDR st' = numOutOfTargetSupportInDR st))"

definition phaseRel ::
  "('v, 'm) environment \<Rightarrow> MhOptionsValues \<Rightarrow> ('v, 'm) sampler_state \<Rightarrow> ('v, 'm) sampler_state \<Rightarrow> bool"
  where
  "phaseRel E ov st st' =
     (amSame st st' \<and> countsRel E ov st st'
      \<and> numRejections st' = numRejections st \<and> workingChain st' = workingChain st)"

definition runRel ::
  "('v, 'm) environment \<Rightarrow> MhOptionsValues \<Rightarrow> ('v, 'm) sampler_state \<Rightarrow> ('v, 'm) sampler_state \<Rightarrow> bool"
  where
  "runRel E ov st st' =
     ((\<not> amEnabled ov \<longrightarrow> amSame st st') \<and> countsRel E ov st st'
      \<and> numOutOfTargetSupport st' + numRejections st
          \<le> numRejections st' + numOutOfTargetSupport st
      \<and> length (workingChain st') = length (workingChain st))"

text \<open>
  \<open>covOk E ov c0 c\<close> describes the covariance \<open>c\<close> of the kernel after adaptation
  events, when it was \<open>c0\<close> before them: it is \<open>c0\<close>, or \<open>eta\<close> times a matrix whose
  factorisation succeeded, or \<open>eta\<close> times a matrix to which \<open>epsilon\<close> was added on the
  diagonal after its factorisation had failed as not positive definite.
\<close>

definition covOk :: "('v, 'm) environment \<Rightarrow> MhOptionsValues \<Rightarrow> 'm \<Rightarrow> 'm \<Rightarrow> bool" where
  "covOk E ov c0 c =
     (c = c0
      \<or> (\<exists>m. chol E m = 0 \<and> c = mscale E (amEta ov) m)
      \<or> (\<exists>m. chol E m \<noteq> 0 \<and> chol E m = notPosDefiniteRC E
             \<and> chol E (mplus E m (newDiagMatrix E (amEpsilon ov))) = 0
             \<and> c = mscale E (amEta ov) (mplus E m (newDiagMatrix E (amEpsilon ov)))))"

subsection \<open>Reading a completed generation; example streams and targets\<close>

text \<open>
  \<open>observe f r\<close> is \<open>f\<close> of the sampler that a completed generation \<open>r\<close> returns, and
  \<open>rawChainInfo\<close> the five counters of a sampler. \<open>exDraws\<close> is a stream whose first
  vector is in the support and whose later vectors are not, \<open>exDrawsOut\<close> the opposite.
  The targets return \<open>-inf\<close> or NaN at the point 1 and 0 elsewhere (\<open>exTargetInf\<close>,
  \<open>exTargetNaN\<close>), the logarithm of the standard normal density up to a constant
  (\<open>exTargetNormal\<close>), or 0 everywhere (\<open>exTargetFlat\<close>).
\<close>

definition observe ::
  "(('v, 'm) sampler_state \<Rightarrow> 'a) \<Rightarrow> (error + ('v, 'm) sampler_state) option \<Rightarrow> 'a option" where
  "observe f r = (case r of Some (Inr st) \<Rightarrow> Some (f st) | _ \<Rightarrow> None)"

definition rawChainInfo :: "('v, 'm) sampler_state \<Rightarrow> nat \<times> nat \<times> nat \<times> nat \<times> nat" where
  "rawChainInfo st = (numTargetCalls st, numDRs st, numOutOfTargetSupport st,
     numOutOfTargetSupportInDR st, numRejections st)"

definition exDraws :: "nat \<Rightarrow> double" where
  "exDraws n = (if n = 0 then Fin 1 else Fin (- 1))"

definition exTargetInf :: "double \<Rightarrow> double" where
  "exTargetInf x = (if x = Fin 1 then NInf else Fin 0)"

definition exTargetNaN :: "double \<Rightarrow> double" where
  "exTargetNaN x = (if x = Fin 1 then NaN else Fin 0)"

definition exTargetNormal :: "double \<Rightarrow> double" where
  "exTargetNormal x = (case x of Fin r \<Rightarrow> Fin (- (r * r) / 2) | _ \<Rightarrow> NInf)"

definition exTargetFlat :: "double \<Rightarrow> double" where
  "exTargetFlat x = Fin 0"

definition exDrawsOut :: "nat \<Rightarrow> double" where
  "exDrawsOut n = (if n = 0 then Fin (- 1) else Fin 1)"

text \<open>
  A generation of two positions from the point 0 with the flat target, in which every
  drawn vector is \<open>c\<close>: \<open>exCurrent c\<close> is the position data of the point \<open>c\<close>, \<open>exEntry\<close>
  the sampler when the chain loop is entered, \<open>exProposed c\<close> the sampler once the
  candidate \<open>c\<close> is evaluated and accepted, and \<open>exWritten c\<close> the sampler once the
  candidate is written to the chain. \<open>amView\<close> reads the three members of adaptive
  Metropolis and the kernel's covariance.
\<close>

definition exCurrent :: "double \<Rightarrow> double MarkovChainPositionData" where
  "exCurrent c = \<lparr> vecValues = c, outOfTargetSupport = False, logLikelihood = Fin 0,
                   logTarget = Fin 0 \<rparr>"

definition exEntry :: "(double, double) sampler_state" where
  "exEntry = exSampler\<lparr>numTargetCalls := 1, targetCalls := [Fin 0],
               workingChain := [Some (Fin 0), None]\<rparr>"

definition exProposed :: "double \<Rightarrow> (double, double) sampler_state" where
  "exProposed c = exEntry\<lparr>numTargetCalls := 2, targetCalls := [c, Fin 0], numRealizations := 1,
     tkState := \<lparr> preComputingPositions = [0 \<mapsto> Fin 0, 1 \<mapsto> c], lawCovMatrix = Fin 1 \<rparr>\<rparr>"

definition exWritten :: "double \<Rightarrow> (double, double) sampler_state" where
  "exWritten c = (exProposed c)\<lparr>workingChain := [Some (Fin 0), Some c]\<rparr>"

definition amView :: "('v, 'm) sampler_state \<Rightarrow> double \<times> 'v option \<times> 'm option \<times> 'm" where
  "amView st = (lastChainSize st, lastMean st, lastAdaptedCovMatrix st, lawCovMatrix (tkState st))"

section \<open>Properties of the acceptance functions\<close>

lemma notFinite_iff: "notFinite t \<longleftrightarrow> (t = NInf \<or> t = PInf \<or> t = NaN)"
  by (cases t) (simp_all add: notFinite_def isnan_def)

lemma notFinite_Fin [simp]: "\<not> notFinite (Fin a)"
  by (simp add: notFinite_iff)

text \<open>
  Claim C2. Single-stage acceptance \<open>alpha(x, y, xStageId, yStageId)\<close>, its rules taken in
  order: if either position is out of support the result is 0; if both are in support and
  a log-target is \<open>+inf\<close>, \<open>-inf\<close> or NaN the result is 0 and the warning is written to
  \<open>std::cerr\<close>; the function always returns a value (it has no abort). Otherwise, with a
  symmetric kernel, the result is \<open>min(1, exp(logTarget y - logTarget x))\<close>.
\<close>

theorem alpha_xy_single_stage:
  "(outOfTargetSupport x \<or> outOfTargetSupport y
      \<longrightarrow> alphaValue (alpha_xy expectsLn tk x y xs ys) = Fin 0)
   \<and> (\<not> outOfTargetSupport x \<and> \<not> outOfTargetSupport y
        \<and> (logTarget x \<in> {PInf, NInf, NaN} \<or> logTarget y \<in> {PInf, NInf, NaN})
      \<longrightarrow> alphaValue (alpha_xy expectsLn tk x y xs ys) = Fin 0
          \<and> warned (alpha_xy expectsLn tk x y xs ys))
   \<and> (\<not> outOfTargetSupport x \<and> \<not> outOfTargetSupport y
        \<and> logTarget x \<notin> {PInf, NInf, NaN} \<and> logTarget y \<notin> {PInf, NInf, NaN}
        \<and> symmetric tk
      \<longrightarrow> alphaValue (alpha_xy expectsLn tk x y xs ys)
            = dmin (Fin 1) (dexp (dsub (logTarget y) (logTarget x))))"
  by (auto simp add: alpha_xy_def notFinite_iff dmin_def Let_def)

theorem alpha_xy_single_stage_witness:
  "alphaValue (alpha_xy True exTK (exPosT 0 True NInf) (exPosT 1 False (Fin 0)) 0 1) = Fin 0
   \<and> alphaValue (alpha_xy True exTK (exPosT 0 False (Fin 0)) (exPosT 1 False NaN) 0 1) = Fin 0
   \<and> warned (alpha_xy True exTK (exPosT 0 False (Fin 0)) (exPosT 1 False NaN) 0 1)
   \<and> alphaValue (alpha_xy True exTK (exPosT 0 False (Fin 0)) (exPosT 1 False (Fin (- 1))) 0 1)
       = Fin (exp (- 1))"
  using alpha_xy_single_stage [of "exPosT 0 True NInf" "exPosT 1 False (Fin 0)" True exTK 0 1]
        alpha_xy_single_stage [of "exPosT 0 False (Fin 0)" "exPosT 1 False NaN" True exTK 0 1]
        alpha_xy_single_stage [of "exPosT 0 False (Fin 0)" "exPosT 1 False (Fin (- 1))" True exTK 0 1]
  by (simp add: exPosT_def exTK_def dmin_def dsub_def)

text \<open>
  Claim C3, as amended. The decision \<open>acceptAlpha\<close> rejects without drawing when
  \<open>alpha \<le> 0\<close>, accepts without drawing when \<open>alpha \<ge> 1\<close>, and in every other case draws
  one uniform sample \<open>u\<close> and accepts if and only if \<open>u \<le> alpha\<close>.
\<close>

theorem acceptAlpha_rule:
  "(dle alpha (Fin 0) \<longrightarrow> acceptAlpha u alpha n = (False, n))
   \<and> (\<not> dle alpha (Fin 0) \<and> dle (Fin 1) alpha \<longrightarrow> acceptAlpha u alpha n = (True, n))
   \<and> (\<not> dle alpha (Fin 0) \<and> \<not> dle (Fin 1) alpha
        \<longrightarrow> acceptAlpha u alpha n = (dle (u n) alpha, Suc n))"
  by (simp add: acceptAlpha_def)

theorem acceptAlpha_rule_witness:
  "acceptAlpha (uConst (Fin (1 / 4))) (Fin 0) 5 = (False, 5)
   \<and> acceptAlpha (uConst (Fin (1 / 4))) (Fin 1) 5 = (True, 5)
   \<and> acceptAlpha (uConst (Fin (1 / 4))) (Fin (1 / 2)) 5 = (True, 6)
   \<and> acceptAlpha (uConst (Fin (3 / 4))) (Fin (1 / 2)) 5 = (False, 6)"
  using acceptAlpha_rule [of "Fin 0" "uConst (Fin (1 / 4))" 5]
        acceptAlpha_rule [of "Fin 1" "uConst (Fin (1 / 4))" 5]
        acceptAlpha_rule [of "Fin (1 / 2)" "uConst (Fin (1 / 4))" 5]
        acceptAlpha_rule [of "Fin (1 / 2)" "uConst (Fin (3 / 4))" 5]
  by (simp add: dle_def uConst_def)

text \<open>
  The rule of claim C3 as stated fails: with \<open>alpha = 0\<close> and a next uniform sample
  \<open>u = 0\<close>, so that \<open>u \<le> alpha\<close>, the candidate is rejected and no sample is drawn (the
  count stays 0); with \<open>alpha = 1\<close> no sample is drawn either.
\<close>

theorem acceptAlpha_counterexample:
  "dle (uConst (Fin 0) 0) (Fin 0)
   \<and> acceptAlpha (uConst (Fin 0)) (Fin 0) 0 = (False, 0)
   \<and> acceptAlpha (uConst (Fin 0)) (Fin 1) 0 = (True, 0)"
  by (simp add: acceptAlpha_def dle_def uConst_def)

subsection \<open>The multi-stage acceptance computes the DRAM ratio\<close>

lemma map_nth_rev: "length xs = n \<Longrightarrow> map (\<lambda>i. xs ! (n - Suc i)) [0..<n] = rev xs"
  by (rule nth_equalityI) (auto simp add: rev_nth)

lemma map_nth_id: "length xs = n \<Longrightarrow> map (\<lambda>i. xs ! i) [0..<n] = xs"
  by (auto simp add: map_nth)

lemma rev_upt_nth: "i < n - m \<Longrightarrow> rev [m..<n] ! i = n - Suc i"
  by (simp add: rev_nth)

lemma map_down_less1:
  "map (\<lambda>i. f (n - Suc (Suc i))) [0..<n - 2] = map f (rev [Suc 0..<n - Suc 0])"
  by (rule nth_equalityI) (simp_all add: rev_upt_nth)

lemma map_down_prefix:
  "map (\<lambda>i. g (n - Suc i)) [0..<n - 2] = map (\<lambda>k. g (Suc k)) (rev [Suc 0..<n - Suc 0])"
proof (rule nth_equalityI)
  show "length (map (\<lambda>i. g (n - Suc i)) [0..<n - 2])
        = length (map (\<lambda>k. g (Suc k)) (rev [Suc 0..<n - Suc 0]))"
    by simp
next
  fix i assume "i < length (map (\<lambda>i. g (n - Suc i)) [0..<n - 2])"
  then have i: "i < n - 2" by simp
  then have "rev [Suc 0..<n - Suc 0] ! i = n - Suc 0 - Suc i"
    by (intro rev_upt_nth) simp
  moreover have "Suc (n - Suc 0 - Suc i) = n - Suc i" using i by simp
  ultimately have e: "Suc (rev [Suc 0..<n - Suc 0] ! i) = n - Suc i" by (simp only:)
  have l: "map (\<lambda>i. g (n - Suc i)) [0..<n - 2] ! i = g (n - Suc i)"
    using i by simp
  have "i < length (rev [Suc 0..<n - Suc 0])" using i by simp
  then have r: "map (\<lambda>k. g (Suc k)) (rev [Suc 0..<n - Suc 0]) ! i
                = g (Suc (rev [Suc 0..<n - Suc 0] ! i))"
    by (rule nth_map)
  show "map (\<lambda>i. g (n - Suc i)) [0..<n - 2] ! i
        = map (\<lambda>k. g (Suc k)) (rev [Suc 0..<n - Suc 0]) ! i"
    by (simp only: l r e)
qed

lemma rev_upt_last: "2 \<le> n \<Longrightarrow> rev [Suc 0..<n] = (n - Suc 0) # rev [Suc 0..<n - Suc 0]"
  by (cases n) simp_all

lemma foldl_accumulate:
  "(\<And>i. i \<in> set js \<Longrightarrow> B i = Inr (b i)) \<Longrightarrow> (\<And>i. i \<in> set js \<Longrightarrow> F i = Inr (f i)) \<Longrightarrow>
   foldl (\<lambda>acc i. accumulate acc (nc i) (dc i) (B i) (F i)) (Inr (l1, l2, a1, a2)) js
   = Inr (foldl dadd l1 (map nc js), foldl dadd l2 (map dc js),
          foldl dmul a1 (map (\<lambda>i. dsub (Fin 1) (b i)) js),
          foldl dmul a2 (map (\<lambda>i. dsub (Fin 1) (f i)) js))"
  by (induction js arbitrary: l1 l2 a1 a2) (simp_all add: accumulate_def)

lemma alpha_vec_unfold:
  assumes "3 \<le> length ps" "length ids = length ps" "\<not> endpointsDegenerate ps"
  shows "alpha_vec e tk ps ids =
    (case foldl (\<lambda>acc i. accumulate acc
                   (stageLogPdf e tk (rev ids) (length ps - 2 - i))
                   (stageLogPdf e tk ids (length ps - 2 - i))
                   (alpha_vec e tk (take (length ps - 1 - i) (rev ps))
                      (take (length ps - 1 - i) (rev ids)))
                   (alpha_vec e tk (take (length ps - 1 - i) ps) (take (length ps - 1 - i) ids)))
            (Inr (dadd (Fin 0) (stageLogPdf e tk (rev ids) (length ps - 1)),
                  dadd (Fin 0) (stageLogPdf e tk ids (length ps - 1)), Fin 1, Fin 1))
            [0..<length ps - 2] of
       Inl err \<Rightarrow> Inl err
     | Inr (a, b, c, d) \<Rightarrow>
         Inr (dmin (Fin 1) (dmul (ddiv c d)
               (dexp (dsub (dadd a (logTarget (rev ps ! 0))) (dadd b (logTarget (ps ! 0))))))))"
  using assms
  apply (subst alpha_vec.simps)
  apply (simp add: Let_def map_nth_rev map_nth_id stageLogPdf_def endpointsDegenerate_def
      butlast_conv_take del: upt_Suc)
  done

lemma alpha_vec_small:
  assumes "length ps = 2"
  shows "alpha_vec e tk ps ids = Inr (alpha_dram e tk ps ids)"
  using assms
  by (subst alpha_vec.simps, subst alpha_dram.simps)
     (auto simp add: Let_def endpointsDegenerate_def)

lemma alpha_vec_degenerate:
  assumes "2 \<le> length ps" "endpointsDegenerate ps"
  shows "alpha_vec e tk ps ids = Inr (Fin 0)"
  using assms
  by (subst alpha_vec.simps) (auto simp add: Let_def endpointsDegenerate_def)

lemma alpha_vec_refines:
  "2 \<le> length ps \<Longrightarrow> length ids = length ps \<Longrightarrow>
     alpha_vec e tk ps ids = Inr (alpha_dram e tk ps ids)"
proof (induction ps arbitrary: ids rule: length_induct)
  case (1 ps)
  show ?case
  proof (cases "length ps = 2 \<or> endpointsDegenerate ps")
    case True
    then show ?thesis
    proof
      assume "length ps = 2" then show ?thesis by (rule alpha_vec_small)
    next
      assume d: "endpointsDegenerate ps"
      have "alpha_dram e tk ps ids = Fin 0"
        using d by (subst alpha_dram.simps) simp
      with alpha_vec_degenerate [OF "1.prems"(1) d] show ?thesis by simp
    qed
  next
    case False
    then have n3: "3 \<le> length ps" and nd: "\<not> endpointsDegenerate ps"
      using "1.prems" by auto
    define n where "n = length ps"
    have bk: "alpha_vec e tk (take (n - 1 - i) (rev ps)) (take (n - 1 - i) (rev ids))
                = Inr (alpha_dram e tk (take (n - 1 - i) (rev ps)) (take (n - 1 - i) (rev ids)))"
      if "i \<in> set [0..<n - 2]" for i
      using that "1.prems" n3
        "1.IH" [rule_format, of "take (n - 1 - i) (rev ps)" "take (n - 1 - i) (rev ids)"]
      by (simp add: n_def)
    have fw: "alpha_vec e tk (take (n - 1 - i) ps) (take (n - 1 - i) ids)
                = Inr (alpha_dram e tk (take (n - 1 - i) ps) (take (n - 1 - i) ids))"
      if "i \<in> set [0..<n - 2]" for i
      using that "1.prems" n3
        "1.IH" [rule_format, of "take (n - 1 - i) ps" "take (n - 1 - i) ids"]
      by (simp add: n_def)
    let ?B = "\<lambda>j. dsub (Fin 1) (alpha_dram e tk (take j (rev ps)) (take j (rev ids)))"
    let ?F = "\<lambda>j. dsub (Fin 1) (alpha_dram e tk (take j ps) (take j ids))"
    have pb: "map (\<lambda>i. ?B (n - Suc i)) [0..<n - 2]
              = map (\<lambda>k. ?B (Suc k)) (rev [Suc 0..<n - Suc 0])"
      by (rule map_down_prefix)
    have pf: "map (\<lambda>i. ?F (n - Suc i)) [0..<n - 2]
              = map (\<lambda>k. ?F (Suc k)) (rev [Suc 0..<n - Suc 0])"
      by (rule map_down_prefix)
    have n2: "2 \<le> n" "\<not> n - Suc 0 \<le> Suc 0" using n3 by (simp_all add: n_def)
    show ?thesis
      apply (subst alpha_vec_unfold [OF n3 "1.prems"(2) nd])
      apply (fold n_def)
      apply (subst foldl_accumulate
          [where b = "\<lambda>i. alpha_dram e tk (take (n - 1 - i) (rev ps)) (take (n - 1 - i) (rev ids))"
             and f = "\<lambda>i. alpha_dram e tk (take (n - 1 - i) ps) (take (n - 1 - i) ids)"])
        apply (erule bk)
       apply (erule fw)
      apply (subst (3) alpha_dram.simps)
      using nd n2
      apply (simp add: Let_def n_def [symmetric] map_down_less1 pb pf rev_upt_last [OF n2(1)]
                  del: upt_Suc)
      done
  qed
qed

lemma ex_dram:
  "alpha_dram True exTK [exPos 0 0, exPos 1 (- 1), exPos 2 0] [0, 1, 2] = Fin (exp (- 2))"
  by (simp add: alpha_dram.simps [of _ _ "[a, b, c]" for a b c]
      alpha_dram.simps [of _ _ "[a, b]" for a b]
      endpointsDegenerate_def exPos_def exTK_def stageLogPdf_def lnConv_def
      alpha_xy_def dmin_def dsub_def Let_def)

lemma ex_spec:
  "alpha_spec True exTK [exPos 0 0, exPos 1 (- 1), exPos 2 0] [0, 1, 2] = Fin 1"
  by (simp add: alpha_spec.simps [of _ _ "[a, b, c]" for a b c]
      alpha_spec.simps [of _ _ "[a, b]" for a b]
      endpointsDegenerate_def exPos_def exTK_def stageLogPdf_def lnConv_def
      alpha_xy_def dmin_def dsub_def Let_def)

text \<open>
  Claim C1, as amended. For \<open>m + 1\<close> positions (\<open>m \<ge> 1\<close>) with as many stage ids the
  multi-stage acceptance returns the value \<open>alpha_dram\<close>: 0 when an endpoint is out of
  support or has a log-target that is not finite; the two-position acceptance when
  \<open>m = 1\<close>; and otherwise \<open>min(1, (P_num / P_den) * exp(log_num - log_den))\<close>, where the
  products run over the prefixes of length \<open>k + 1\<close>, \<open>k = 1..m-1\<close>, of the reversed and
  of the forward list, and the log sums take the stage proposal log-densities for
  \<open>k = 1..m\<close>, the last position included, plus the log-target of the first position of
  the reversed and of the forward list.
\<close>

theorem alpha_vec_dram:
  assumes "2 \<le> length ps" and "length ids = length ps"
  shows "alpha_vec expectsLn tk ps ids = Inr (alpha_dram expectsLn tk ps ids)"
  using assms by (rule alpha_vec_refines)

theorem alpha_vec_dram_witness:
  "2 \<le> length [exPos 0 0, exPos 1 (- 1), exPos 2 0]
   \<and> length [0, 1, 2 :: nat] = length [exPos 0 0, exPos 1 (- 1), exPos 2 0]
   \<and> alpha_vec True exTK [exPos 0 0, exPos 1 (- 1), exPos 2 0] [0, 1, 2] = Inr (Fin (exp (- 2)))"
  using alpha_vec_dram [of "[exPos 0 0, exPos 1 (- 1), exPos 2 0]" "[0, 1, 2]" True exTK]
  by (simp only: ex_dram) simp

text \<open>
  The formula of claim C1 as stated fails. Three in-support positions with log-targets
  \<open>0, -1, 0\<close> and stage ids \<open>0, 1, 2\<close>: the function returns \<open>exp(-2)\<close>, because the
  log-density of the last stage (2 forward, 0 backward) enters the log sums, where the
  formula over the intermediate positions alone gives 1.
\<close>

theorem alpha_vec_counterexample:
  "alpha_vec True exTK [exPos 0 0, exPos 1 (- 1), exPos 2 0] [0, 1, 2] = Inr (Fin (exp (- 2)))
   \<and> alpha_spec True exTK [exPos 0 0, exPos 1 (- 1), exPos 2 0] [0, 1, 2] = Fin 1
   \<and> Fin (exp (- 2)) \<noteq> Fin 1"
proof -
  have "alpha_vec True exTK [exPos 0 0, exPos 1 (- 1), exPos 2 0] [0, 1, 2]
        = Inr (alpha_dram True exTK [exPos 0 0, exPos 1 (- 1), exPos 2 0] [0, 1, 2])"
    by (rule alpha_vec_refines) simp_all
  then show ?thesis
    by (simp only: ex_dram ex_spec) simp
qed

section \<open>Properties of adaptive Metropolis\<close>

lemma amWindow_schedule:
  "amWindow ov i =
     (if i < amInitialNonAdaptInterval ov then (0, 0, False)
      else if i = amInitialNonAdaptInterval ov then (0, i + 1, True)
      else if (i - amInitialNonAdaptInterval ov) mod amAdaptInterval ov = 0
        then (i - amAdaptInterval ov, amAdaptInterval ov, False)
      else (0, 0, False))"
  by (simp add: amWindow_def Let_def)

text \<open>
  Claim C4, at the input where the code departs from it. With
  \<open>am_initial_non_adapt_interval = 2\<close> and \<open>am_adapt_interval = 2\<close>, adaptive Metropolis
  is seeded at step 2 from the chain positions 0, 1, 2, nothing happens at step 3, and the
  update at step 4 takes the positions 2 and 3: position 2 a second time, and not
  position 4, which the step has just written.
\<close>

theorem amWindow_failing_input:
  "amConsumed (exOptions True 0 2 2) 2 = [0, 1, 2]
   \<and> amConsumed (exOptions True 0 2 2) 3 = []
   \<and> amConsumed (exOptions True 0 2 2) 4 = [2, 3]"
  by (simp add: amConsumed_def amWindow_def exOptions_def Let_def upt_rec)

text \<open>
  The refresh of the proposal covariance, case by case: the matrices that are factorised,
  and the matrix given to the kernel.
\<close>

lemma refreshProposalCov_cases:
  "(chol E lastCov = 0 \<longrightarrow>
      refreshProposalCov E ov lastCov = ([lastCov], Inr (Some (mscale E (amEta ov) lastCov))))
   \<and> (chol E lastCov \<noteq> 0 \<and> chol E lastCov \<noteq> notPosDefiniteRC E \<longrightarrow>
      refreshProposalCov E ov lastCov = ([lastCov], Inl InvalidFirstCholReturnCode))
   \<and> (chol E lastCov \<noteq> 0 \<and> chol E lastCov = notPosDefiniteRC E \<longrightarrow>
      refreshProposalCov E ov lastCov =
        ([lastCov, mplus E lastCov (newDiagMatrix E (amEpsilon ov))],
         if chol E (mplus E lastCov (newDiagMatrix E (amEpsilon ov))) = 0 then
           Inr (Some (mscale E (amEta ov) (mplus E lastCov (newDiagMatrix E (amEpsilon ov)))))
         else if chol E (mplus E lastCov (newDiagMatrix E (amEpsilon ov))) = notPosDefiniteRC E
           then Inr None
         else Inl InvalidSecondCholReturnCode))"
  by (simp add: refreshProposalCov_def Let_def)

lemma refreshProposalCov_examples:
  "refreshProposalCov (exEnv (uConst (Fin 0)) dneg) (exOptions True 0 2 2) (Fin 1)
     = ([Fin 1], Inr (Some (Fin 2)))
   \<and> refreshProposalCov (exEnv (uConst (Fin 0)) dneg) (exOptions True 0 2 2) NaN
     = ([NaN], Inl InvalidFirstCholReturnCode)
   \<and> refreshProposalCov (exEnv (uConst (Fin 0)) dneg) (exOptions True 0 2 2) (Fin 0)
     = ([Fin 0, Fin 3], Inr (Some (Fin 6)))
   \<and> refreshProposalCov (exEnv (uConst (Fin 0)) dneg) (exOptions True 0 2 2) (Fin (- 5))
     = ([Fin (- 5), Fin (- 2)], Inr None)"
  using refreshProposalCov_cases [of "exEnv (uConst (Fin 0)) dneg" "Fin 1" "exOptions True 0 2 2"]
        refreshProposalCov_cases [of "exEnv (uConst (Fin 0)) dneg" NaN "exOptions True 0 2 2"]
        refreshProposalCov_cases [of "exEnv (uConst (Fin 0)) dneg" "Fin 0" "exOptions True 0 2 2"]
        refreshProposalCov_cases [of "exEnv (uConst (Fin 0)) dneg" "Fin (- 5)" "exOptions True 0 2 2"]
  by (simp add: exEnv_def exOptions_def isnan_def)

text \<open>
  With \<open>last_cov = -1\<close>, \<open>eta = 2\<close> and \<open>epsilon = 3\<close> the factorisations are attempted
  on \<open>-1\<close> and on \<open>2\<close>, and the matrix given to the kernel is \<open>4\<close>, which is
  \<open>eta * (last_cov + epsilon)\<close>, while \<open>eta * last_cov\<close> is \<open>-2\<close>.
\<close>

lemma refreshProposalCov_ridge:
  "refreshProposalCov (exEnv (uConst (Fin 0)) dneg) (exOptions True 0 2 2) (Fin (- 1))
     = ([Fin (- 1), Fin 2], Inr (Some (Fin 4)))
   \<and> mscale (exEnv (uConst (Fin 0)) dneg) (amEta (exOptions True 0 2 2)) (Fin (- 1)) = Fin (- 2)"
  by (simp add: refreshProposalCov_def exEnv_def exOptions_def Let_def isnan_def)

section \<open>Properties of chain generation\<close>

lemma generateCandidate_props:
  assumes "generateCandidate inS draws putOut n d = Some r"
  shows "candidateOk inS putOut n d r"
proof (rule generateCandidate.raw_induct
    [where P = "\<lambda>inS draws putOut n d r. candidateOk inS putOut n d r", OF _ assms])
  fix gc :: "('a \<Rightarrow> bool) \<Rightarrow> (nat \<Rightarrow> 'a) \<Rightarrow> bool \<Rightarrow> nat \<Rightarrow> nat \<Rightarrow> ('a \<times> bool \<times> nat \<times> nat) option"
  fix inS draws putOut n d r
  assume IH: "\<And>inS draws putOut n d y. gc inS draws putOut n d = Some y \<Longrightarrow> candidateOk inS putOut n d y"
  assume step: "(let tmpVecValues = draws n; outOfSupport = \<not> inS tmpVecValues;
          n' = Suc n; d' = if outOfSupport then Suc d else d;
          keepGeneratingCandidates = if putOut then False else outOfSupport
      in if keepGeneratingCandidates
         then gc inS draws putOut n' d'
         else Some (tmpVecValues, outOfSupport, n', d')) = Some r"
  show "candidateOk inS putOut n d r"
  proof (cases "\<not> putOut \<and> \<not> inS (draws n)")
    case True
    with step have "gc inS draws putOut (Suc n) (Suc d) = Some r" by (simp add: Let_def)
    from IH [OF this] True show ?thesis by (auto simp add: candidateOk_def)
  next
    case False
    with step show ?thesis by (auto simp add: candidateOk_def Let_def split: if_splits)
  qed
qed

lemma generateCandidate_in_support:
  "inS (draws n) \<Longrightarrow> generateCandidate inS draws putOut n d = Some (draws n, False, Suc n, d)"
  by (subst generateCandidate.simps) (simp add: Let_def)

lemma generateCandidate_putOut:
  "generateCandidate inS draws True n d
     = Some (draws n, \<not> inS (draws n), Suc n, if inS (draws n) then d else Suc d)"
  by (subst generateCandidate.simps) (simp add: Let_def)

lemma amSame_refl [simp]: "amSame st st" by (simp add: amSame_def)

lemma countsRel_refl [simp]: "countsRel E ov st st" by (auto simp add: countsRel_def)

lemma phaseRel_refl [simp]: "phaseRel E ov st st" by (simp add: phaseRel_def)

lemma runRel_refl [simp]: "runRel E ov st st" by (simp add: runRel_def)

lemma amSame_trans: "amSame a b \<Longrightarrow> amSame b c \<Longrightarrow> amSame a c"
  by (simp add: amSame_def)

lemma countsRel_trans: "countsRel E ov a b \<Longrightarrow> countsRel E ov b c \<Longrightarrow> countsRel E ov a c"
  unfolding countsRel_def by (intro conjI impI; (blast | linarith | simp))

lemma phaseRel_trans: "phaseRel E ov a b \<Longrightarrow> phaseRel E ov b c \<Longrightarrow> phaseRel E ov a c"
  unfolding phaseRel_def using amSame_trans countsRel_trans by metis

lemma runRel_trans:
  assumes "runRel E ov a b" and "runRel E ov b c"
  shows "runRel E ov a c"
proof -
  have "\<not> amEnabled ov \<longrightarrow> amSame a c"
    using assms amSame_trans [of a b c] by (auto simp add: runRel_def)
  moreover have "countsRel E ov a c"
    using assms countsRel_trans [of E ov a b c] by (simp add: runRel_def)
  moreover have "numOutOfTargetSupport c + numRejections a
                   \<le> numRejections c + numOutOfTargetSupport a"
    using assms by (simp add: runRel_def)
  moreover have "length (workingChain c) = length (workingChain a)"
    using assms by (simp add: runRel_def)
  ultimately show ?thesis by (simp add: runRel_def)
qed

lemma proposeCandidate_rel:
  assumes "proposeCandidate E ov cur st = Some (Inr (accept, oos, valid, cand, st1))"
  shows "phaseRel E ov st st1
         \<and> numOutOfTargetSupport st1 = numOutOfTargetSupport st + (if oos then 1 else 0)
         \<and> numDRs st1 = numDRs st
         \<and> (oos \<longrightarrow> \<not> accept)"
  using assms
  by (auto simp add: proposeCandidate_def setPreComputingPosition_def
        clearPreComputingPositions_def evaluateTarget_def phaseRel_def amSame_def countsRel_def
        candidateOk_def
      split: if_splits prod.splits option.splits dest!: generateCandidate_props)

lemma drStage_rel:
  assumes "drStage E ov sid accept ps ids st = Some (Inr (valid', accept', ps', ids', cand', st'))"
  shows "amSame st st'
         \<and> set (targetCalls st') \<subseteq> set (targetCalls st) \<union> Collect (contains E)
         \<and> numDRs st' = numDRs st
         \<and> numOutOfTargetSupportInDR st' \<le> Suc (numOutOfTargetSupportInDR st)
         \<and> numOutOfTargetSupportInDR st \<le> numOutOfTargetSupportInDR st'
         \<and> (putOutOfBoundsInChain ov \<longrightarrow>
               numOutOfTargetSupportInDR st' + numOutOfSupportRealizations st
               = numOutOfTargetSupportInDR st + numOutOfSupportRealizations st')
         \<and> (\<not> putOutOfBoundsInChain ov \<longrightarrow>
               numOutOfTargetSupportInDR st' = numOutOfTargetSupportInDR st)
         \<and> numOutOfTargetSupport st' = numOutOfTargetSupport st
         \<and> numRejections st' = numRejections st \<and> workingChain st' = workingChain st"
  using assms
  by (auto simp add: drStage_def setPreComputingPosition_def evaluateTarget_def amSame_def
        candidateOk_def Let_def
      split: if_splits prod.splits option.splits sum.splits dest!: generateCandidate_props)

lemma drLoop_rel:
  "drLoop E ov sid valid accept ps ids cand st = Some (Inr (accept', cand', st')) \<Longrightarrow>
     phaseRel E ov st st' \<and> numOutOfTargetSupport st' = numOutOfTargetSupport st"
proof (induction E ov sid valid accept ps ids cand st rule: drLoop.induct)
  case (1 E ov sid valid accept ps ids cand st)
  show ?case
  proof (cases "valid \<and> \<not> accept \<and> sid < drMaxNumExtraStages ov")
    case False
    with "1.prems" show ?thesis by (simp add: drLoop.simps)
  next
    case True
    let ?st0 = "st\<lparr>numDRs := Suc (numDRs st)\<rparr>"
    from True "1.prems" obtain v a p i c s where
      stage: "drStage E ov (Suc sid) accept ps ids ?st0 = Some (Inr (v, a, p, i, c, s))"
      and rest: "drLoop E ov (Suc sid) v a p i c s = Some (Inr (accept', cand', st'))"
      by (subst (asm) drLoop.simps) (auto split: option.splits sum.splits)
    from "1.IH" [OF True stage refl refl refl refl refl refl rest]
    have r2: "phaseRel E ov s st'" "numOutOfTargetSupport st' = numOutOfTargetSupport s"
      by simp_all
    from drStage_rel [OF stage]
    have r1: "phaseRel E ov st s" "numOutOfTargetSupport s = numOutOfTargetSupport st"
      by (auto simp add: phaseRel_def countsRel_def amSame_def)
    from phaseRel_trans [OF r1(1) r2(1)] r1(2) r2(2) show ?thesis by simp
  qed
qed

lemma delayedRejection_rel:
  assumes "delayedRejection E ov positionId cur accept oos valid cand st
             = Some (Inr (accept', cand', st'))"
  shows "phaseRel E ov st st' \<and> numOutOfTargetSupport st' = numOutOfTargetSupport st
         \<and> (accept \<or> oos \<longrightarrow> accept' = accept)"
  using assms
  by (auto simp add: delayedRejection_def split: if_splits dest: drLoop_rel)

lemma updateChain_rel:
  assumes "updateChain positionId cur accept cand st = Inr (cur', st')"
  shows "amSame st st' \<and> countsRel E ov st st'
         \<and> numOutOfTargetSupport st' = numOutOfTargetSupport st
         \<and> numRejections st' = numRejections st + (if accept then 0 else 1)
         \<and> length (workingChain st') = length (workingChain st)
         \<and> positionId < length (workingChain st)"
  using assms
  by (auto simp add: updateChain_def setPositionValues_def amSame_def countsRel_def
      split: if_splits sum.splits)

lemma adaptStep_rel:
  assumes "adaptStep E ov positionId st = Inr st'"
  shows "(\<not> amEnabled ov \<longrightarrow> st' = st) \<and> countsRel E ov st st'
         \<and> numOutOfTargetSupport st' = numOutOfTargetSupport st
         \<and> numRejections st' = numRejections st
         \<and> workingChain st' = workingChain st"
  using assms
  by (auto simp add: adaptStep_def countsRel_def Let_def updateLawCovMatrix_def
      split: if_splits sum.splits prod.splits option.splits)

lemma chainStep_rel:
  assumes "chainStep E ov positionId cur st = Some (Inr (cur', st'))"
  shows "runRel E ov st st'"
proof -
  from assms obtain accept oos valid cand st1 accept' cand' st2 st3 where
    p: "proposeCandidate E ov cur st = Some (Inr (accept, oos, valid, cand, st1))"
    and d: "delayedRejection E ov positionId cur accept oos valid cand st1
              = Some (Inr (accept', cand', st2))"
    and u: "updateChain positionId cur accept' cand' st2 = Inr (cur', st3)"
    and a: "adaptStep E ov positionId st3 = Inr st'"
    by (auto simp add: chainStep_def split: option.splits sum.splits prod.splits)
  note P = proposeCandidate_rel [OF p]
  note D = delayedRejection_rel [OF d]
  note U = updateChain_rel [OF u, of E ov]
  note A = adaptStep_rel [OF a]
  have c: "countsRel E ov st st'"
    using P D U A countsRel_trans [of E ov st st1 st2] countsRel_trans [of E ov st st2 st3]
      countsRel_trans [of E ov st st3 st']
    by (simp add: phaseRel_def)
  have am: "\<not> amEnabled ov \<longrightarrow> amSame st st'"
    using P D U A amSame_trans [of st st1 st2] amSame_trans [of st st2 st3]
    by (auto simp add: phaseRel_def)
  have rej: "numOutOfTargetSupport st' + numRejections st
               \<le> numRejections st' + numOutOfTargetSupport st"
    using P D U A by (auto simp add: phaseRel_def split: if_splits)
  have len: "length (workingChain st') = length (workingChain st)"
    using P D U A by (simp add: phaseRel_def)
  from c am rej len show ?thesis by (simp add: runRel_def)
qed

lemma chainLoop_rel:
  "chainLoop E ov chainSize positionId cur st = Some (Inr (cur', st')) \<Longrightarrow> runRel E ov st st'"
proof (induction E ov chainSize positionId cur st rule: chainLoop.induct)
  case (1 E ov chainSize positionId cur st)
  show ?case
  proof (cases "positionId < chainSize")
    case False
    with "1.prems" show ?thesis by (simp add: chainLoop.simps)
  next
    case True
    from True "1.prems" obtain c s where
      step: "chainStep E ov positionId cur st = Some (Inr (c, s))"
      and rest: "chainLoop E ov chainSize (Suc positionId) c s = Some (Inr (cur', st'))"
      by (subst (asm) chainLoop.simps) (auto split: option.splits sum.splits)
    from "1.IH" [OF True step refl refl rest] have "runRel E ov s st'" .
    with chainStep_rel [OF step] show ?thesis by (rule runRel_trans)
  qed
qed

lemmas run_simps = generateFullChain_def resetInfo_def resizeSequence_def setPositionValues_def
  chainLoop.simps chainStep_def proposeCandidate_def setPreComputingPosition_def
  clearPreComputingPositions_def generateCandidate_putOut evaluateTarget_def
  delayedRejection_def avoidDR_def drLoop.simps drStage_def updateChain_def adaptStep_def
  amEnabled_def acceptAlpha_def alpha_xy_def tkView_def lnConv_def notFinite_iff dle_def dmin_def

lemma ex_nan_run:
  "observe (\<lambda>st. (rawChainInfo st, workingChain st))
     (generateFullChain (exEnv (uConst (Fin 1)) exTargetNaN) (exOptions True 0 0 0) (Fin 0) 2 exSampler)
   = Some ((2, 0, 0, 0, 1), [Some (Fin 0), Some (Fin 0)])"
  by (simp add: run_simps observe_def rawChainInfo_def exEnv_def exOptions_def exSampler_def
      exTargetNaN_def uConst_def Let_def numeral_2_eq_2)

lemma ex_dr_run:
  "observe (\<lambda>st. (rawChainInfo st, numOutOfSupportRealizations st))
     (generateFullChain (exEnv exDraws exTargetInf) (exOptions True 4 0 0) (Fin 0) 2 exSampler)
   = Some ((2, 4, 0, 4, 1), 4)"
  by (simp add: run_simps observe_def rawChainInfo_def exEnv_def exOptions_def exSampler_def
      exTargetInf_def exDraws_def Let_def numeral_2_eq_2)

lemma generateFullChain_run:
  assumes "generateFullChain E ov x0 N st0 = Some (Inr st)"
  shows "contains E x0
         \<and> (\<exists>s. runRel E ov s st
               \<and> targetCalls s = [x0]
               \<and> numDRs s = 0 \<and> numOutOfTargetSupport s = 0
               \<and> numOutOfTargetSupportInDR s = 0 \<and> numRejections s = 0
               \<and> numOutOfSupportRealizations s = 0
               \<and> length (workingChain s) = N
               \<and> amSame st0 s)"
proof -
  from assms have c: "contains E x0"
    by (auto simp add: generateFullChain_def Let_def split: if_splits)
  obtain val lp ll where cf: "callFunction E x0 = (val, lp, ll)"
    by (cases "callFunction E x0") auto
  let ?cur = "\<lparr> vecValues = x0, outOfTargetSupport = False, logLikelihood = ll,
                 logTarget = lnConv (expectsLnLikelihood E) val \<rparr>"
  let ?st1 = "(resetInfo st0)\<lparr>numTargetCalls := Suc (numTargetCalls (resetInfo st0)),
                  targetCalls := x0 # targetCalls (resetInfo st0),
                  workingChain := resizeSequence N (workingChain (resetInfo st0))\<rparr>"
  from assms c cf obtain chain cur where
    sp: "setPositionValues (workingChain ?st1) 0 x0 = Inr chain"
    and lp: "chainLoop E ov N 1 ?cur (?st1\<lparr>workingChain := chain\<rparr>) = Some (Inr (cur, st))"
    by (auto simp add: generateFullChain_def Let_def split: sum.splits option.splits prod.splits)
  let ?s = "?st1\<lparr>workingChain := chain\<rparr>"
  have "runRel E ov ?s st" using lp by (rule chainLoop_rel)
  moreover have "length (workingChain ?s) = N"
    using sp by (auto simp add: setPositionValues_def resizeSequence_def split: if_splits)
  moreover have "targetCalls ?s = [x0]" "numDRs ?s = 0" "numOutOfTargetSupport ?s = 0"
    "numOutOfTargetSupportInDR ?s = 0" "numRejections ?s = 0"
    "numOutOfSupportRealizations ?s = 0" "amSame st0 ?s"
    by (simp_all add: resetInfo_def amSame_def)
  ultimately show ?thesis using c by blast
qed

lemma foldl_accumulate_err:
  assumes "\<And>i x. i \<in> set js \<Longrightarrow> B i = Inl x \<Longrightarrow> P x"
    and "\<And>i x. i \<in> set js \<Longrightarrow> F i = Inl x \<Longrightarrow> P x"
    and "\<And>x. acc = Inl x \<Longrightarrow> P x"
    and "foldl (\<lambda>acc i. accumulate acc (nc i) (dc i) (B i) (F i)) acc js = Inl x"
  shows "P x"
  using assms
proof (induction js arbitrary: acc)
  case Nil
  then show ?case by simp
next
  case (Cons j js)
  have "\<And>y. accumulate acc (nc j) (dc j) (B j) (F j) = Inl y \<Longrightarrow> P y"
    using Cons.prems(1) [of j] Cons.prems(2) [of j] Cons.prems(3)
    by (auto simp add: accumulate_def split: sum.splits prod.splits)
  then have acc': "\<And>y. accumulate acc (nc j) (dc j) (B j) (F j) = Inl y \<Longrightarrow> P y" .
  show ?case
  proof (rule Cons.IH [of "accumulate acc (nc j) (dc j) (B j) (F j)"])
    show "\<And>i x. i \<in> set js \<Longrightarrow> B i = Inl x \<Longrightarrow> P x" using Cons.prems(1) by auto
    show "\<And>i x. i \<in> set js \<Longrightarrow> F i = Inl x \<Longrightarrow> P x" using Cons.prems(2) by auto
    show "\<And>y. accumulate acc (nc j) (dc j) (B j) (F j) = Inl y \<Longrightarrow> P y" by (rule acc')
    show "foldl (\<lambda>acc i. accumulate acc (nc i) (dc i) (B i) (F i))
            (accumulate acc (nc j) (dc j) (B j) (F j)) js = Inl x"
      using Cons.prems(4) by simp
  qed
qed

lemma alpha_vec_err:
  "alpha_vec e tk ps ids = Inl err \<Longrightarrow> err = AlphaInputSizeLessThan2"
proof (induction ps arbitrary: ids err rule: length_induct)
  case (1 ps)
  let ?n = "length ps"
  show ?case
  proof (cases "?n < 3 \<or> endpointsDegenerate ps")
    case True
    with "1.prems" show ?thesis
      by (subst (asm) alpha_vec.simps)
         (auto simp add: Let_def endpointsDegenerate_def split: if_splits)
  next
    case False
    note ih = "1.IH" [rule_format]
    from False "1.prems" show ?thesis
      apply (subst (asm) alpha_vec.simps)
      apply (simp add: Let_def endpointsDegenerate_def split: sum.splits prod.splits)
      apply (erule foldl_accumulate_err [where P = "\<lambda>x. x = AlphaInputSizeLessThan2", rotated 3])
        apply (erule ih [rotated], simp)
       apply (erule ih [rotated], simp)
      apply simp
      done
  qed
qed

lemma drLoop_err:
  "drLoop E ov sid valid accept ps ids cand st = Some (Inl err) \<Longrightarrow>
     err = AlphaInputSizeLessThan2"
proof (induction E ov sid valid accept ps ids cand st rule: drLoop.induct)
  case (1 E ov sid valid accept ps ids cand st)
  show ?case
  proof (cases "valid \<and> \<not> accept \<and> sid < drMaxNumExtraStages ov")
    case False
    with "1.prems" show ?thesis by (simp add: drLoop.simps)
  next
    case True
    let ?st0 = "st\<lparr>numDRs := Suc (numDRs st)\<rparr>"
    from True "1.prems" consider
      (stage) "drStage E ov (Suc sid) accept ps ids ?st0 = Some (Inl err)"
      | (rest) v a p i c s where
          "drStage E ov (Suc sid) accept ps ids ?st0 = Some (Inr (v, a, p, i, c, s))"
          "drLoop E ov (Suc sid) v a p i c s = Some (Inl err)"
      by (subst (asm) drLoop.simps) (auto split: option.splits sum.splits)
    then show ?thesis
    proof cases
      case stage
      then show ?thesis
        by (auto simp add: drStage_def Let_def
            split: option.splits prod.splits if_splits sum.splits dest: alpha_vec_err)
    next
      case rest
      from "1.IH" [OF True rest(1) refl refl refl refl refl refl rest(2)] show ?thesis .
    qed
  qed
qed

lemma adaptStep_err:
  "adaptStep E ov positionId st = Inl err \<Longrightarrow> err \<noteq> InitialPositionOutOfSupport"
proof -
  have cp: "collectPositions chain js = Inl x \<Longrightarrow> x \<noteq> InitialPositionOutOfSupport"
    for chain :: "'a option list" and js x
    by (induction js arbitrary: x)
       (auto simp add: getPositionValues_def split: sum.splits if_splits option.splits)
  assume "adaptStep E ov positionId st = Inl err"
  then show ?thesis
    by (auto simp add: adaptStep_def Let_def updateAdaptedCovMatrix_def refreshProposalCov_def
        split: if_splits prod.splits sum.splits option.splits dest: cp)
qed

lemma proposeCandidate_err:
  "proposeCandidate E ov cur st = Some (Inl err) \<Longrightarrow> err \<noteq> InitialPositionOutOfSupport"
  by (auto simp add: proposeCandidate_def split: prod.splits if_splits option.splits)

lemma delayedRejection_err:
  "delayedRejection E ov positionId cur accept oos valid cand st = Some (Inl err) \<Longrightarrow>
     err \<noteq> InitialPositionOutOfSupport"
  by (auto simp add: delayedRejection_def split: if_splits dest: drLoop_err)

lemma updateChain_err:
  "updateChain positionId cur accept cand st = Inl err \<Longrightarrow> err \<noteq> InitialPositionOutOfSupport"
  by (auto simp add: updateChain_def setPositionValues_def split: if_splits sum.splits)

lemma chainStep_err:
  assumes "chainStep E ov positionId cur st = Some (Inl err)"
  shows "err \<noteq> InitialPositionOutOfSupport"
  using assms
  by (auto simp add: chainStep_def split: option.splits sum.splits prod.splits
      dest: proposeCandidate_err delayedRejection_err updateChain_err adaptStep_err)

lemma chainLoop_err:
  "chainLoop E ov chainSize positionId cur st = Some (Inl err) \<Longrightarrow>
     err \<noteq> InitialPositionOutOfSupport"
proof (induction E ov chainSize positionId cur st rule: chainLoop.induct)
  case (1 E ov chainSize positionId cur st)
  show ?case
  proof (cases "positionId < chainSize")
    case False
    with "1.prems" show ?thesis by (simp add: chainLoop.simps)
  next
    case True
    from True "1.prems" consider
      (step) "chainStep E ov positionId cur st = Some (Inl err)"
      | (rest) c s where "chainStep E ov positionId cur st = Some (Inr (c, s))"
          "chainLoop E ov chainSize (Suc positionId) c s = Some (Inl err)"
      by (subst (asm) chainLoop.simps) (auto split: option.splits sum.splits)
    then show ?thesis
    proof cases
      case step
      then show ?thesis by (rule chainStep_err)
    next
      case rest
      from "1.IH" [OF True rest(1) refl refl rest(2)] show ?thesis .
    qed
  qed
qed

lemma chainStep_plain:
  assumes "\<forall>n. contains E (realization E n)" and "\<forall>v i. tkValid E v i"
    and "drMaxNumExtraStages ov = 0" and "\<not> amEnabled ov"
    and "positionId < length (workingChain st)"
  shows "\<exists>cur' st'. chainStep E ov positionId cur st = Some (Inr (cur', st'))
           \<and> numTargetCalls st' = Suc (numTargetCalls st)
           \<and> numRejections st' \<le> Suc (numRejections st)
           \<and> length (workingChain st') = length (workingChain st)"
  using assms
  by (auto simp add: chainStep_def proposeCandidate_def setPreComputingPosition_def
        clearPreComputingPositions_def generateCandidate_in_support evaluateTarget_def
        delayedRejection_def updateChain_def setPositionValues_def adaptStep_def
      split: prod.splits)

lemma chainLoop_plain:
  "\<forall>n. contains E (realization E n) \<Longrightarrow> \<forall>v i. tkValid E v i \<Longrightarrow>
   drMaxNumExtraStages ov = 0 \<Longrightarrow> \<not> amEnabled ov \<Longrightarrow>
   chainSize \<le> length (workingChain st) \<Longrightarrow> positionId \<le> chainSize \<Longrightarrow>
         \<exists>cur' st'. chainLoop E ov chainSize positionId cur st = Some (Inr (cur', st'))
           \<and> numTargetCalls st' = numTargetCalls st + (chainSize - positionId)
           \<and> numRejections st' \<le> numRejections st + (chainSize - positionId)
           \<and> length (workingChain st') = length (workingChain st)"
proof (induction E ov chainSize positionId cur st rule: chainLoop.induct)
  case (1 E ov chainSize positionId cur st)
  note hyp = "1.prems"(1-4)
  show ?case
  proof (cases "positionId < chainSize")
    case False
    then show ?thesis using "1.prems" by (simp add: chainLoop.simps)
  next
    case True
    then have "positionId < length (workingChain st)" using "1.prems" by simp
    from chainStep_plain [OF hyp this, of cur] obtain c s where
      step: "chainStep E ov positionId cur st = Some (Inr (c, s))"
      and s: "numTargetCalls s = Suc (numTargetCalls st)"
        "numRejections s \<le> Suc (numRejections st)"
        "length (workingChain s) = length (workingChain st)"
      by blast
    have "\<exists>cur' st'. chainLoop E ov chainSize (Suc positionId) c s = Some (Inr (cur', st'))
           \<and> numTargetCalls st' = numTargetCalls s + (chainSize - Suc positionId)
           \<and> numRejections st' \<le> numRejections s + (chainSize - Suc positionId)
           \<and> length (workingChain st') = length (workingChain s)"
      using True "1.prems"(5) s
      by (intro "1.IH" [OF True step refl refl hyp]) simp_all
    then obtain cur' st' where
      rest: "chainLoop E ov chainSize (Suc positionId) c s = Some (Inr (cur', st'))"
      and r: "numTargetCalls st' = numTargetCalls s + (chainSize - Suc positionId)"
        "numRejections st' \<le> numRejections s + (chainSize - Suc positionId)"
        "length (workingChain st') = length (workingChain s)"
      by blast
    have "chainLoop E ov chainSize positionId cur st = Some (Inr (cur', st'))"
      using True step rest by (subst chainLoop.simps) simp
    with s r True show ?thesis by auto
  qed
qed

lemma generateFullChain_plain:
  assumes "contains E x0" and "\<forall>n. contains E (realization E n)" and "\<forall>v i. tkValid E v i"
    and "drMaxNumExtraStages ov = 0" and "\<not> amEnabled ov" and "0 < N"
  shows "\<exists>st. generateFullChain E ov x0 N st0 = Some (Inr st)
           \<and> length (workingChain st) = N
           \<and> numTargetCalls st = N
           \<and> numRejections st \<le> N - 1"
proof -
  obtain val lp ll where cf: "callFunction E x0 = (val, lp, ll)"
    by (cases "callFunction E x0") auto
  let ?cur = "\<lparr> vecValues = x0, outOfTargetSupport = False, logLikelihood = ll,
                 logTarget = lnConv (expectsLnLikelihood E) val \<rparr>"
  let ?s = "(resetInfo st0)\<lparr>numTargetCalls := Suc (numTargetCalls (resetInfo st0)),
                  targetCalls := x0 # targetCalls (resetInfo st0),
                  workingChain := resizeSequence N (workingChain (resetInfo st0)),
                  workingChain := (resizeSequence N (workingChain (resetInfo st0)))[0 := Some x0]\<rparr>"
  have len: "length (workingChain ?s) = N" by (simp add: resizeSequence_def)
  from chainLoop_plain [OF assms(2-5), of N ?s 1 ?cur] len assms(6)
  obtain cur' st' where
    l: "chainLoop E ov N 1 ?cur ?s = Some (Inr (cur', st'))"
    and r: "numTargetCalls st' = numTargetCalls ?s + (N - 1)"
      "numRejections st' \<le> numRejections ?s + (N - 1)"
      "length (workingChain st') = length (workingChain ?s)"
    by auto
  have "generateFullChain E ov x0 N st0 = Some (Inr st')"
    using assms(1,6) cf l
    by (simp add: generateFullChain_def Let_def setPositionValues_def resizeSequence_def)
  moreover have "numTargetCalls st' = N" "numRejections st' \<le> N - 1"
    using r assms(6) by (simp_all add: resetInfo_def)
  ultimately show ?thesis using r(3) len by auto
qed

lemma generateCandidate_redraw:
  "\<not> inS (draws n) \<Longrightarrow>
     generateCandidate inS draws False n d = generateCandidate inS draws False (Suc n) (Suc d)"
  by (subst generateCandidate.simps) (simp add: Let_def)

lemma observe_Some: "observe f r = Some x \<Longrightarrow> \<exists>st. r = Some (Inr st) \<and> f st = x"
  by (auto simp add: observe_def split: option.splits sum.splits)

lemma ex_redraw_run:
  "observe (\<lambda>st. (rawChainInfo st, numOutOfSupportRealizations st))
     (generateFullChain (exEnv exDrawsOut exTargetFlat) (exOptions False 0 0 0) (Fin 0) 2 exSampler)
   = Some ((2, 0, 0, 0, 0), 1)"
  by (simp add: generateFullChain_def resetInfo_def resizeSequence_def setPositionValues_def
      chainLoop.simps chainStep_def proposeCandidate_def setPreComputingPosition_def
      clearPreComputingPositions_def generateCandidate_redraw generateCandidate_in_support
      evaluateTarget_def delayedRejection_def updateChain_def adaptStep_def
      amEnabled_def acceptAlpha_def alpha_xy_def tkView_def lnConv_def notFinite_iff dle_def dmin_def
      observe_def rawChainInfo_def exEnv_def exOptions_def exSampler_def
      exTargetFlat_def exDrawsOut_def dsub_def Let_def numeral_2_eq_2)

lemma ex_plain_hyps:
  "contains (exEnv (uConst (Fin 1)) exTargetNormal) (Fin 0)"
  "\<forall>n. contains (exEnv (uConst (Fin 1)) exTargetNormal)
         (realization (exEnv (uConst (Fin 1)) exTargetNormal) n)"
  "\<forall>v i. tkValid (exEnv (uConst (Fin 1)) exTargetNormal) v i"
  "drMaxNumExtraStages (exOptions False 0 0 0) = 0"
  "\<not> amEnabled (exOptions False 0 0 0)"
  by (simp_all add: exEnv_def exOptions_def uConst_def dle_def amEnabled_def)

subsection \<open>The claims about a whole generation\<close>

text \<open>
  Claim C6. If the initial point lies outside the target's support, the generation fails
  with the fatal error of the initial position and returns no sampler state, hence no chain
  position; if it lies inside, the generation does not end with this error.
\<close>

theorem initial_point_check:
  "(\<not> contains E x0 \<longrightarrow>
      generateFullChain E ov x0 N st0 = Some (Inl InitialPositionOutOfSupport))
   \<and> (contains E x0 \<longrightarrow>
      generateFullChain E ov x0 N st0 \<noteq> Some (Inl InitialPositionOutOfSupport))"
proof (intro conjI impI)
  assume "\<not> contains E x0"
  then show "generateFullChain E ov x0 N st0 = Some (Inl InitialPositionOutOfSupport)"
    by (simp add: generateFullChain_def Let_def)
next
  assume c: "contains E x0"
  show "generateFullChain E ov x0 N st0 \<noteq> Some (Inl InitialPositionOutOfSupport)"
  proof
    assume "generateFullChain E ov x0 N st0 = Some (Inl InitialPositionOutOfSupport)"
    with c show False
      by (auto simp add: generateFullChain_def Let_def setPositionValues_def
          split: prod.splits sum.splits option.splits if_splits dest: chainLoop_err)
  qed
qed

theorem initial_point_check_witness:
  "generateFullChain (exEnv (uConst (Fin 1)) exTargetNormal) (exOptions True 0 0 0) (Fin (- 1)) 2
       exSampler = Some (Inl InitialPositionOutOfSupport)
   \<and> generateFullChain (exEnv (uConst (Fin 1)) exTargetNormal) (exOptions True 0 0 0) (Fin 0) 2
       exSampler \<noteq> Some (Inl InitialPositionOutOfSupport)"
  using initial_point_check [of "exEnv (uConst (Fin 1)) exTargetNormal" "Fin (- 1)"
          "exOptions True 0 0 0" 2 exSampler]
        initial_point_check [of "exEnv (uConst (Fin 1)) exTargetNormal" "Fin 0"
          "exOptions True 0 0 0" 2 exSampler]
  by (simp add: exEnv_def dle_def)

text \<open>
  Claim C7, as amended. In a completed generation every point passed to the target
  evaluator lies in the support. For a candidate outside the support the evaluator is not
  called and the log-likelihood and log-target are set to \<open>-inf\<close>. For a candidate inside
  the support the evaluator is called once and its converted value is stored as the
  log-target of the candidate, also when it is NaN: the evaluation step has no failure.
\<close>

theorem target_evaluation:
  "(generateFullChain E ov x0 N st0 = Some (Inr st) \<longrightarrow> (\<forall>v \<in> set (targetCalls st). contains E v))
   \<and> fst (evaluateTarget E inDR v True s)
       = \<lparr> vecValues = v, outOfTargetSupport = True, logLikelihood = NInf, logTarget = NInf \<rparr>
   \<and> numTargetCalls (snd (evaluateTarget E inDR v True s)) = numTargetCalls s
   \<and> targetCalls (snd (evaluateTarget E inDR v True s)) = targetCalls s
   \<and> logTarget (fst (evaluateTarget E inDR v False s))
       = lnConv (expectsLnLikelihood E) (fst (callFunction E v))
   \<and> (fst (callFunction E v) = NaN \<longrightarrow> logTarget (fst (evaluateTarget E inDR v False s)) = NaN)
   \<and> numTargetCalls (snd (evaluateTarget E inDR v False s)) = Suc (numTargetCalls s)
   \<and> targetCalls (snd (evaluateTarget E inDR v False s)) = v # targetCalls s"
proof -
  have "generateFullChain E ov x0 N st0 = Some (Inr st) \<longrightarrow>
          (\<forall>v \<in> set (targetCalls st). contains E v)"
  proof
    assume "generateFullChain E ov x0 N st0 = Some (Inr st)"
    from generateFullChain_run [OF this] show "\<forall>v \<in> set (targetCalls st). contains E v"
      by (auto simp add: runRel_def countsRel_def)
  qed
  then show ?thesis
    by (auto simp add: evaluateTarget_def lnConv_def split: prod.splits)
qed

theorem target_evaluation_witness:
  "observe (\<lambda>st. list_all (contains (exEnv (uConst (Fin 1)) exTargetNaN)) (targetCalls st))
     (generateFullChain (exEnv (uConst (Fin 1)) exTargetNaN) (exOptions True 0 0 0) (Fin 0) 2
        exSampler) = Some True
   \<and> logTarget (fst (evaluateTarget (exEnv (uConst (Fin 1)) exTargetNaN) False (Fin 1) False
        exSampler)) = NaN"
proof -
  let ?E = "exEnv (uConst (Fin 1)) exTargetNaN"
  from observe_Some [OF ex_nan_run] obtain st where
    run: "generateFullChain ?E (exOptions True 0 0 0) (Fin 0) 2 exSampler = Some (Inr st)"
    by blast
  have nan: "fst (callFunction ?E (Fin 1)) = NaN" by (simp add: exEnv_def exTargetNaN_def)
  from target_evaluation [of ?E "exOptions True 0 0 0" "Fin 0" 2 exSampler st False "Fin 1" exSampler]
    run nan
  show ?thesis by (simp add: observe_def list_all_iff lnConv_def)
qed

text \<open>
  Claim C7 as stated fails. The evaluator returns NaN at the in-support point 1, which is
  every proposal of the run; the generation of two positions completes, with two target
  calls and the proposal rejected.
\<close>

theorem target_evaluation_counterexample:
  "contains (exEnv (uConst (Fin 1)) exTargetNaN) (Fin 1)
   \<and> callFunction (exEnv (uConst (Fin 1)) exTargetNaN) (Fin 1) = (NaN, Fin 0, NaN)
   \<and> observe (\<lambda>st. (rawChainInfo st, workingChain st))
       (generateFullChain (exEnv (uConst (Fin 1)) exTargetNaN) (exOptions True 0 0 0) (Fin 0) 2
          exSampler)
     = Some ((2, 0, 0, 0, 1), [Some (Fin 0), Some (Fin 0)])"
  using ex_nan_run by (simp add: exEnv_def exTargetNaN_def dle_def)

text \<open>
  Claim C8, as amended. In every completed run \<open>num_out_of_support \<le> num_rejections\<close> and
  \<open>num_out_of_support_in_dr \<le> num_drs\<close>. With \<open>put_out_of_bounds_in_chain\<close> the sum of
  the two counters is the number of drawn proposals that were outside the support;
  without it both counters are 0, since a proposal outside the support is drawn again and
  not counted.
\<close>

theorem out_of_support_accounting:
  assumes "generateFullChain E ov x0 N st0 = Some (Inr st)"
  shows "numOutOfTargetSupport st \<le> numRejections st
         \<and> numOutOfTargetSupportInDR st \<le> numDRs st
         \<and> (putOutOfBoundsInChain ov \<longrightarrow>
               numOutOfTargetSupport st + numOutOfTargetSupportInDR st
                 = numOutOfSupportRealizations st)
         \<and> (\<not> putOutOfBoundsInChain ov \<longrightarrow>
               numOutOfTargetSupport st = 0 \<and> numOutOfTargetSupportInDR st = 0)"
  using generateFullChain_run [OF assms]
  by (auto simp add: runRel_def countsRel_def)

theorem out_of_support_accounting_witness:
  "observe (\<lambda>st. (numOutOfTargetSupport st \<le> numRejections st,
                  numOutOfTargetSupportInDR st \<le> numDRs st,
                  numOutOfTargetSupport st + numOutOfTargetSupportInDR st
                    = numOutOfSupportRealizations st))
     (generateFullChain (exEnv exDraws exTargetInf) (exOptions True 4 0 0) (Fin 0) 2 exSampler)
     = Some (True, True, True)
   \<and> observe (\<lambda>st. (numOutOfTargetSupport st, numOutOfTargetSupportInDR st))
     (generateFullChain (exEnv exDrawsOut exTargetFlat) (exOptions False 0 0 0) (Fin 0) 2
        exSampler) = Some (0, 0)"
proof -
  from observe_Some [OF ex_dr_run] obtain st where
    run: "generateFullChain (exEnv exDraws exTargetInf) (exOptions True 4 0 0) (Fin 0) 2 exSampler
            = Some (Inr st)"
    by blast
  from observe_Some [OF ex_redraw_run] obtain st' where
    run': "generateFullChain (exEnv exDrawsOut exTargetFlat) (exOptions False 0 0 0) (Fin 0) 2
             exSampler = Some (Inr st')"
    by blast
  from out_of_support_accounting [OF run] out_of_support_accounting [OF run'] run run'
  show ?thesis by (simp add: observe_def exOptions_def)
qed

text \<open>
  Claim C8 as stated fails in both parts. With four extra stages, a chain of \<open>N = 2\<close>
  positions, a first proposal in support that is rejected and every later proposal outside
  the support, the counters are \<open>num_out_of_support = 0\<close>, \<open>num_out_of_support_in_dr = 4\<close>
  and \<open>num_rejections = 1\<close>, and \<open>4 > 1 + 2\<close>. Without \<open>put_out_of_bounds_in_chain\<close>, a
  first draw outside the support is drawn again: one drawn proposal was outside the
  support and both counters are 0.
\<close>

theorem out_of_support_accounting_counterexample:
  "observe (\<lambda>st. (rawChainInfo st, numOutOfSupportRealizations st))
     (generateFullChain (exEnv exDraws exTargetInf) (exOptions True 4 0 0) (Fin 0) 2 exSampler)
     = Some ((2, 4, 0, 4, 1), 4)
   \<and> \<not> (0 + 4 \<le> 1 + (2::nat))
   \<and> observe (\<lambda>st. (rawChainInfo st, numOutOfSupportRealizations st))
     (generateFullChain (exEnv exDrawsOut exTargetFlat) (exOptions False 0 0 0) (Fin 0) 2
        exSampler)
     = Some ((2, 0, 0, 0, 0), 1)
   \<and> 0 + 0 \<noteq> (1::nat)"
  using ex_dr_run ex_redraw_run by simp

text \<open>
  Claim C9, as amended. In scenario S1 (initial point in support, chain size 10, no extra
  stages, adaptive Metropolis off, every proposal in support, a kernel whose pre-computing
  positions are always valid, as the scaled-covariance kernel's are) the generation
  returns, the chain has length 10, \<open>num_target_calls\<close> is 10 (one evaluation for the
  initial position and one for the proposal of each of the positions 1 to 9) and
  \<open>num_rejections\<close> is at most 9.
\<close>

theorem plain_mh_run:
  assumes "contains E x0" and "\<forall>n. contains E (realization E n)" and "\<forall>v i. tkValid E v i"
    and "drMaxNumExtraStages ov = 0" and "\<not> amEnabled ov"
  shows "\<exists>st. generateFullChain E ov x0 10 st0 = Some (Inr st)
           \<and> length (workingChain st) = 10
           \<and> numTargetCalls st = 10
           \<and> numRejections st \<le> 9"
  using generateFullChain_plain [OF assms, of 10 st0] by simp

theorem plain_mh_run_witness:
  "observe (\<lambda>st. (length (workingChain st), numTargetCalls st, numRejections st \<le> 9))
     (generateFullChain (exEnv (uConst (Fin 1)) exTargetNormal) (exOptions False 0 0 0) (Fin 0) 10
        exSampler) = Some (10, 10, True)"
  using plain_mh_run [OF ex_plain_hyps, of exSampler]
  by (auto simp add: observe_def)

text \<open>
  Claim C9 as stated fails: in a run of scenario S1 \<open>num_target_calls\<close> is 10, not 11.
\<close>

theorem plain_mh_run_counterexample:
  "observe numTargetCalls
     (generateFullChain (exEnv (uConst (Fin 1)) exTargetNormal) (exOptions False 0 0 0) (Fin 0) 10
        exSampler) = Some 10
   \<and> (10::nat) \<noteq> 11"
  using generateFullChain_plain [OF ex_plain_hyps, of 10 exSampler]
  by (auto simp add: observe_def)

text \<open>
  Claim C10. If \<open>am_initial_non_adapt_interval\<close> is 0, or \<open>am_adapt_interval\<close> is 0, or the
  local-Hessian kernel is selected, then in every completed run \<open>last_mean\<close> and
  \<open>last_cov\<close> are what they were on entry (never allocated), \<open>last_chain_size\<close> and the
  kernel's proposal covariance keep their initial values, and the adaptation step of every
  chain position leaves the sampler unchanged.
\<close>

theorem no_adaptation_when_disabled:
  assumes "amInitialNonAdaptInterval ov = 0 \<or> amAdaptInterval ov = 0 \<or> tkUseLocalHessian ov"
    and "generateFullChain E ov x0 N st0 = Some (Inr st)"
  shows "lastMean st = lastMean st0 \<and> lastAdaptedCovMatrix st = lastAdaptedCovMatrix st0
         \<and> lastChainSize st = lastChainSize st0
         \<and> lawCovMatrix (tkState st) = lawCovMatrix (tkState st0)
         \<and> (\<forall>positionId s. adaptStep E ov positionId s = Inr s)"
proof -
  from assms(1) have d: "\<not> amEnabled ov" by (auto simp add: amEnabled_def)
  from generateFullChain_run [OF assms(2)] d show ?thesis
    by (auto simp add: runRel_def amSame_def adaptStep_def)
qed

theorem no_adaptation_when_disabled_witness:
  "observe (\<lambda>st. (lastMean st, lastAdaptedCovMatrix st, lastChainSize st,
                  lawCovMatrix (tkState st)))
     (generateFullChain (exEnv (uConst (Fin 1)) exTargetNaN) (exOptions True 0 0 0) (Fin 0) 2
        exSampler) = Some (None, None, Fin 0, Fin 1)"
proof -
  from observe_Some [OF ex_nan_run] obtain st where
    run: "generateFullChain (exEnv (uConst (Fin 1)) exTargetNaN) (exOptions True 0 0 0) (Fin 0) 2
            exSampler = Some (Inr st)"
    by blast
  have "amInitialNonAdaptInterval (exOptions True 0 0 0) = 0
        \<or> amAdaptInterval (exOptions True 0 0 0) = 0 \<or> tkUseLocalHessian (exOptions True 0 0 0)"
    by (simp add: exOptions_def)
  from no_adaptation_when_disabled [OF this run] run show ?thesis
    by (simp add: observe_def exSampler_def)
qed

subsection \<open>Adaptive Metropolis within a generation\<close>

text \<open>
  The result of \<open>adaptStep\<close> at an adaptation event, the kernel's covariance across one
  chain position and across the loop, and the place of \<open>adaptStep\<close> in the loop.
\<close>

lemma adaptStep_event:
  assumes "amEnabled ov"
    and "amWindow ov positionId = (first, subSize, alloc)" and "0 < subSize"
    and "collectPositions (workingChain st) [first..<first + subSize] = Inr partialChain"
    and "if alloc then lm = newVector E \<and> lc = newMatrix E
         else lastMean st = Some lm \<and> lastAdaptedCovMatrix st = Some lc"
    and "updateAdaptedCovMatrix E partialChain first (lastChainSize st) lm lc
           = Inr (newSize, newMean, lastCov)"
  shows "adaptStep E ov positionId st =
     (let adapted = st\<lparr>lastChainSize := newSize, lastMean := Some newMean,
                         lastAdaptedCovMatrix := Some lastCov\<rparr>;
          ridge = mplus E lastCov (newDiagMatrix E (amEpsilon ov))
      in if chol E lastCov = 0 then
           Inr (adapted\<lparr>tkState := (tkState st)\<lparr>lawCovMatrix := mscale E (amEta ov) lastCov\<rparr>\<rparr>)
         else if chol E lastCov \<noteq> notPosDefiniteRC E then Inl InvalidFirstCholReturnCode
         else if chol E ridge = 0 then
           Inr (adapted\<lparr>tkState := (tkState st)\<lparr>lawCovMatrix := mscale E (amEta ov) ridge\<rparr>\<rparr>)
         else if chol E ridge \<noteq> notPosDefiniteRC E then Inl InvalidSecondCholReturnCode
         else Inr adapted)"
  using assms
  by (cases alloc) (simp_all add: adaptStep_def refreshProposalCov_def updateLawCovMatrix_def Let_def)

lemma adaptStep_covOk:
  assumes "adaptStep E ov positionId st = Inr st'"
    and "covOk E ov c0 (lawCovMatrix (tkState st))"
  shows "covOk E ov c0 (lawCovMatrix (tkState st'))"
  using assms
  apply (simp add: adaptStep_def refreshProposalCov_def Let_def updateLawCovMatrix_def
      split: if_splits prod.splits sum.splits option.splits)
  apply (auto simp add: covOk_def)
  done

lemma chainStep_covOk:
  assumes "chainStep E ov positionId cur st = Some (Inr (cur', st'))"
    and "covOk E ov c0 (lawCovMatrix (tkState st))"
  shows "covOk E ov c0 (lawCovMatrix (tkState st'))"
proof -
  from assms(1) obtain accept oos valid cand st1 accept' cand' st2 st3 where
    p: "proposeCandidate E ov cur st = Some (Inr (accept, oos, valid, cand, st1))"
    and d: "delayedRejection E ov positionId cur accept oos valid cand st1
              = Some (Inr (accept', cand', st2))"
    and u: "updateChain positionId cur accept' cand' st2 = Inr (cur', st3)"
    and a: "adaptStep E ov positionId st3 = Inr st'"
    by (auto simp add: chainStep_def split: option.splits sum.splits prod.splits)
  have "lawCovMatrix (tkState st3) = lawCovMatrix (tkState st)"
    using proposeCandidate_rel [OF p] delayedRejection_rel [OF d] updateChain_rel [OF u, of E ov]
    by (simp add: phaseRel_def amSame_def)
  with assms(2) adaptStep_covOk [OF a, of c0] show ?thesis by simp
qed

lemma chainLoop_covOk:
  "chainLoop E ov chainSize positionId cur st = Some (Inr (cur', st')) \<Longrightarrow>
   covOk E ov c0 (lawCovMatrix (tkState st)) \<Longrightarrow> covOk E ov c0 (lawCovMatrix (tkState st'))"
proof (induction E ov chainSize positionId cur st rule: chainLoop.induct)
  case (1 E ov chainSize positionId cur st)
  show ?case
  proof (cases "positionId < chainSize")
    case False
    with "1.prems" show ?thesis by (simp add: chainLoop.simps)
  next
    case True
    from True "1.prems"(1) obtain c s where
      step: "chainStep E ov positionId cur st = Some (Inr (c, s))"
      and rest: "chainLoop E ov chainSize (Suc positionId) c s = Some (Inr (cur', st'))"
      by (subst (asm) chainLoop.simps) (auto split: option.splits sum.splits)
    from chainStep_covOk [OF step "1.prems"(2)]
    have "covOk E ov c0 (lawCovMatrix (tkState s))" .
    from "1.IH" [OF True step refl refl rest this] show ?thesis .
  qed
qed

lemma generateFullChain_covOk:
  assumes "generateFullChain E ov x0 N st0 = Some (Inr st)"
  shows "covOk E ov (lawCovMatrix (tkState st0)) (lawCovMatrix (tkState st))"
proof -
  obtain val lp ll where cf: "callFunction E x0 = (val, lp, ll)"
    by (cases "callFunction E x0") auto
  let ?cur = "\<lparr> vecValues = x0, outOfTargetSupport = False, logLikelihood = ll,
                 logTarget = lnConv (expectsLnLikelihood E) val \<rparr>"
  let ?st1 = "(resetInfo st0)\<lparr>numTargetCalls := Suc (numTargetCalls (resetInfo st0)),
                  targetCalls := x0 # targetCalls (resetInfo st0),
                  workingChain := resizeSequence N (workingChain (resetInfo st0))\<rparr>"
  from assms cf obtain chain cur where
    lp: "chainLoop E ov N 1 ?cur (?st1\<lparr>workingChain := chain\<rparr>) = Some (Inr (cur, st))"
    by (auto simp add: generateFullChain_def Let_def
        split: if_splits sum.splits option.splits prod.splits)
  have "covOk E ov (lawCovMatrix (tkState st0))
          (lawCovMatrix (tkState (?st1\<lparr>workingChain := chain\<rparr>)))"
    by (simp add: covOk_def resetInfo_def)
  from chainLoop_covOk [OF lp this] show ?thesis .
qed

lemma chainLoop_adapt:
  assumes "proposeCandidate E ov cur s0 = Some (Inr (acc, oos, valid, cand, s1))"
    and "delayedRejection E ov positionId cur acc oos valid cand s1 = Some (Inr (acc', cand', s2))"
    and "updateChain positionId cur acc' cand' s2 = Inr (cur', st)"
    and "positionId < chainSize"
  shows "chainLoop E ov chainSize positionId cur s0 =
           (case adaptStep E ov positionId st of
              Inl err \<Rightarrow> Some (Inl err)
            | Inr s4 \<Rightarrow> chainLoop E ov chainSize (Suc positionId) cur' s4)"
  using assms by (subst chainLoop.simps) (simp add: chainStep_def split: sum.splits)

lemma chainStep_kernel:
  assumes "proposeCandidate E ov cur s0 = Some (Inr (acc, oos, valid, cand, s1))"
    and "delayedRejection E ov positionId cur acc oos valid cand s1 = Some (Inr (acc', cand', s2))"
    and "updateChain positionId cur acc' cand' s2 = Inr (cur', st)"
  shows "lawCovMatrix (tkState st) = lawCovMatrix (tkState s0)"
  using proposeCandidate_rel [OF assms(1)] delayedRejection_rel [OF assms(2)]
        updateChain_rel [OF assms(3), of E ov]
  by (simp add: phaseRel_def amSame_def)

lemmas ex_defs = exEnv_def exOptions_def exSampler_def exTargetFlat_def uConst_def
  exCurrent_def exEntry_def exProposed_def exWritten_def

text \<open>
  Claim C5, as amended. An adaptation event is a chain position at which adaptive
  Metropolis is enabled and its window is not empty. When the positions of the window are
  set and \<open>updateAdaptedCovMatrix\<close> returns the covariance \<open>lastCov\<close>, the sampler
  attempts the Cholesky factorisation of \<open>lastCov\<close> itself. If it succeeds, the kernel's
  covariance becomes \<open>eta * lastCov\<close>. If it fails with a code other than "not positive
  definite", the event is a fatal error. If it fails with "not positive definite", the
  factorisation is retried on \<open>lastCov + epsilon * I\<close>: on success the kernel's covariance
  becomes \<open>eta * (lastCov + epsilon * I)\<close>, on "not positive definite" the kernel keeps
  its covariance and only the members of adaptive Metropolis are updated, and any other
  code is a fatal error. At every chain position the loop runs this step on the sampler
  that the update of the chain leaves: a fatal error of the step ends the generation with
  that error, and otherwise the loop continues at the next position with the sampler the
  step returns. So the kernel's covariance on return from a generation is the one on
  entry, or \<open>eta\<close> times a matrix whose factorisation succeeded.
\<close>

theorem adaptStep_refresh:
  "(amEnabled ov \<and> amWindow ov positionId = (first, subSize, alloc) \<and> 0 < subSize
      \<and> collectPositions (workingChain st) [first..<first + subSize] = Inr partialChain
      \<and> (if alloc then lm = newVector E \<and> lc = newMatrix E
          else lastMean st = Some lm \<and> lastAdaptedCovMatrix st = Some lc)
      \<and> updateAdaptedCovMatrix E partialChain first (lastChainSize st) lm lc
           = Inr (newSize, newMean, lastCov)
    \<longrightarrow> adaptStep E ov positionId st =
     (let adapted = st\<lparr>lastChainSize := newSize, lastMean := Some newMean,
                         lastAdaptedCovMatrix := Some lastCov\<rparr>;
          ridge = mplus E lastCov (newDiagMatrix E (amEpsilon ov))
      in if chol E lastCov = 0 then
           Inr (adapted\<lparr>tkState := (tkState st)\<lparr>lawCovMatrix := mscale E (amEta ov) lastCov\<rparr>\<rparr>)
         else if chol E lastCov \<noteq> notPosDefiniteRC E then Inl InvalidFirstCholReturnCode
         else if chol E ridge = 0 then
           Inr (adapted\<lparr>tkState := (tkState st)\<lparr>lawCovMatrix := mscale E (amEta ov) ridge\<rparr>\<rparr>)
         else if chol E ridge \<noteq> notPosDefiniteRC E then Inl InvalidSecondCholReturnCode
         else Inr adapted))
   \<and> (proposeCandidate E ov cur s0 = Some (Inr (acc, oos, valid, cand, s1))
      \<and> delayedRejection E ov positionId cur acc oos valid cand s1 = Some (Inr (acc', cand', s2))
      \<and> updateChain positionId cur acc' cand' s2 = Inr (cur', st)
      \<and> positionId < chainSize
    \<longrightarrow> lawCovMatrix (tkState st) = lawCovMatrix (tkState s0)
        \<and> chainLoop E ov chainSize positionId cur s0 =
           (case adaptStep E ov positionId st of
              Inl err \<Rightarrow> Some (Inl err)
            | Inr s4 \<Rightarrow> chainLoop E ov chainSize (Suc positionId) cur' s4))
   \<and> (generateFullChain E ov x0 N st0 = Some (Inr stN)
    \<longrightarrow> covOk E ov (lawCovMatrix (tkState st0)) (lawCovMatrix (tkState stN)))"
  using adaptStep_event [of ov positionId first subSize alloc st partialChain lm E lc newSize
          newMean lastCov]
        chainLoop_adapt [of E ov cur s0 acc oos valid cand s1 positionId acc' cand' s2 cur' st
          chainSize]
        chainStep_kernel [of E ov cur s0 acc oos valid cand s1 positionId acc' cand' s2 cur' st]
        generateFullChain_covOk [of E ov x0 N st0 stN]
  by blast

theorem adaptStep_refresh_witness:
  "map_sum id amView
      (adaptStep (exEnv (uConst (Fin 2)) exTargetFlat) (exOptions True 0 1 1) 1
         (exWritten (Fin 2)))
     = Inr (Fin 2, Some (Fin 1), Some (Fin 2), Fin 4)
   \<and> map_sum id amView
      (adaptStep (exEnv (uConst (Fin 0)) exTargetFlat) (exOptions True 0 1 1) 1
         (exWritten (Fin 0)))
     = Inr (Fin 2, Some (Fin 0), Some (Fin 0), Fin 6)
   \<and> map_sum id amView
      (adaptStep (exEnv (uConst (Fin 0)) exTargetFlat)
         ((exOptions True 0 1 1)\<lparr>amEpsilon := Fin 0\<rparr>) 1 (exWritten (Fin 0)))
     = Inr (Fin 2, Some (Fin 0), Some (Fin 0), Fin 1)
   \<and> adaptStep (exEnv (uConst PInf) exTargetFlat) (exOptions True 0 1 1) 1 (exWritten PInf)
     = Inl InvalidFirstCholReturnCode
   \<and> adaptStep (exEnv (uConst (Fin 0)) exTargetFlat)
        ((exOptions True 0 1 1)\<lparr>amEpsilon := NaN\<rparr>) 1 (exWritten (Fin 0))
     = Inl InvalidSecondCholReturnCode
   \<and> lawCovMatrix (tkState (exWritten (Fin 2))) = lawCovMatrix (tkState exEntry)
   \<and> map_option (map_sum id (\<lambda>r. (vecValues (fst r), amView (snd r))))
        (chainLoop (exEnv (uConst (Fin 2)) exTargetFlat) (exOptions True 0 1 1) 2 1
           (exCurrent (Fin 0)) exEntry)
     = Some (Inr (Fin 2, Fin 2, Some (Fin 1), Some (Fin 2), Fin 4))
   \<and> chainLoop (exEnv (uConst PInf) exTargetFlat) (exOptions True 0 1 1) 2 1
        (exCurrent (Fin 0)) exEntry
     = Some (Inl InvalidFirstCholReturnCode)
   \<and> observe amView
        (generateFullChain (exEnv (uConst (Fin 2)) exTargetFlat) (exOptions True 0 1 1)
           (Fin 0) 2 exSampler)
     = Some (Fin 2, Some (Fin 1), Some (Fin 2), Fin 4)
   \<and> covOk (exEnv (uConst (Fin 2)) exTargetFlat) (exOptions True 0 1 1) (Fin 1) (Fin 4)
   \<and> generateFullChain (exEnv (uConst PInf) exTargetFlat) (exOptions True 0 1 1)
        (Fin 0) 2 exSampler
     = Some (Inl InvalidFirstCholReturnCode)"
proof -
  let ?ov = "exOptions True 0 1 1"
  let ?E = "\<lambda>c. exEnv (uConst c) exTargetFlat"
  note ev_simps = ex_defs amEnabled_def amWindow_def getPositionValues_def
      updateAdaptedCovMatrix_def isnan_def dsub_def inf_of_sign_def Let_def upt_rec
  have e1: "adaptStep (?E (Fin 2)) ?ov 1 (exWritten (Fin 2))
      = Inr ((exWritten (Fin 2))\<lparr>lastChainSize := Fin 2, lastMean := Some (Fin 1),
               lastAdaptedCovMatrix := Some (Fin 2),
               tkState := (tkState (exWritten (Fin 2)))\<lparr>lawCovMatrix := Fin 4\<rparr>\<rparr>)"
    using adaptStep_refresh [where positionId = 1 and first = 0 and subSize = 2
        and alloc = True and lm = "Fin 0" and lc = "Fin 0" and E = "?E (Fin 2)" and ov = ?ov and st = "exWritten (Fin 2)"
        and partialChain = "[Fin 0, Fin 2]" and newSize = "Fin 2" and newMean = "Fin 1"
        and lastCov = "Fin 2", THEN conjunct1]
    by (simp add: ev_simps)
  have e2: "map_sum id amView (adaptStep (?E (Fin 0)) ?ov 1 (exWritten (Fin 0)))
      = Inr (Fin 2, Some (Fin 0), Some (Fin 0), Fin 6)"
    using adaptStep_refresh [where positionId = 1 and first = 0 and subSize = 2
        and alloc = True and lm = "Fin 0" and lc = "Fin 0" and E = "?E (Fin 0)" and ov = ?ov and st = "exWritten (Fin 0)"
        and partialChain = "[Fin 0, Fin 0]" and newSize = "Fin 2" and newMean = "Fin 0"
        and lastCov = "Fin 0", THEN conjunct1]
    by (simp add: ev_simps amView_def)
  have e3: "map_sum id amView
        (adaptStep (?E (Fin 0)) (?ov\<lparr>amEpsilon := Fin 0\<rparr>) 1 (exWritten (Fin 0)))
      = Inr (Fin 2, Some (Fin 0), Some (Fin 0), Fin 1)"
    using adaptStep_refresh [where positionId = 1 and first = 0 and subSize = 2
        and alloc = True and lm = "Fin 0" and lc = "Fin 0" and E = "?E (Fin 0)" and ov = "?ov\<lparr>amEpsilon := Fin 0\<rparr>"
        and st = "exWritten (Fin 0)" and partialChain = "[Fin 0, Fin 0]"
        and newSize = "Fin 2" and newMean = "Fin 0" and lastCov = "Fin 0", THEN conjunct1]
    by (simp add: ev_simps amView_def)
  have e4: "adaptStep (?E PInf) ?ov 1 (exWritten PInf) = Inl InvalidFirstCholReturnCode"
    using adaptStep_refresh [where positionId = 1 and first = 0 and subSize = 2
        and alloc = True and lm = "Fin 0" and lc = "Fin 0" and E = "?E PInf" and ov = ?ov and st = "exWritten PInf"
        and partialChain = "[Fin 0, PInf]" and newSize = "Fin 2" and newMean = PInf
        and lastCov = NaN, THEN conjunct1]
    by (simp add: ev_simps)
  have e5: "adaptStep (?E (Fin 0)) (?ov\<lparr>amEpsilon := NaN\<rparr>) 1 (exWritten (Fin 0))
      = Inl InvalidSecondCholReturnCode"
    using adaptStep_refresh [where positionId = 1 and first = 0 and subSize = 2
        and alloc = True and lm = "Fin 0" and lc = "Fin 0" and E = "?E (Fin 0)" and ov = "?ov\<lparr>amEpsilon := NaN\<rparr>"
        and st = "exWritten (Fin 0)" and partialChain = "[Fin 0, Fin 0]"
        and newSize = "Fin 2" and newMean = "Fin 0" and lastCov = "Fin 0", THEN conjunct1]
    by (simp add: ev_simps)
  note step_simps = run_simps ex_defs dsub_def Let_def
  have p: "proposeCandidate (?E c) ?ov (exCurrent (Fin 0)) exEntry
      = Some (Inr (True, False, True, exCurrent c, exProposed c))"
    if "c = Fin 2 \<or> c = PInf" for c
    using that by (auto simp add: step_simps)
  have d: "delayedRejection (?E c) ?ov 1 (exCurrent (Fin 0)) True False True (exCurrent c)
        (exProposed c) = Some (Inr (True, exCurrent c, exProposed c))" for c
    by (simp add: step_simps)
  have u: "updateChain 1 (exCurrent (Fin 0)) True (exCurrent c) (exProposed c)
      = Inr (exCurrent c, exWritten c)" for c
    by (simp add: step_simps)
  have l2: "lawCovMatrix (tkState (exWritten (Fin 2))) = lawCovMatrix (tkState exEntry)
      \<and> chainLoop (?E (Fin 2)) ?ov 2 1 (exCurrent (Fin 0)) exEntry
        = (case adaptStep (?E (Fin 2)) ?ov 1 (exWritten (Fin 2)) of
             Inl err \<Rightarrow> Some (Inl err)
           | Inr s4 \<Rightarrow> chainLoop (?E (Fin 2)) ?ov 2 (Suc 1) (exCurrent (Fin 2)) s4)"
    using adaptStep_refresh [where ov = ?ov and positionId = 1
        and cur = "exCurrent (Fin 0)" and ?s0.0 = exEntry and acc = True and oos = False
        and valid = True and acc' = True and chainSize = 2 and E = "?E (Fin 2)" and cand = "exCurrent (Fin 2)"
        and ?s1.0 = "exProposed (Fin 2)" and cand' = "exCurrent (Fin 2)"
        and ?s2.0 = "exProposed (Fin 2)" and cur' = "exCurrent (Fin 2)"
        and st = "exWritten (Fin 2)",
        THEN conjunct2, THEN conjunct1] p [of "Fin 2"] d [of "Fin 2"] u [of "Fin 2"]
    by simp
  have l4: "chainLoop (?E PInf) ?ov 2 1 (exCurrent (Fin 0)) exEntry
        = (case adaptStep (?E PInf) ?ov 1 (exWritten PInf) of
             Inl err \<Rightarrow> Some (Inl err)
           | Inr s4 \<Rightarrow> chainLoop (?E PInf) ?ov 2 (Suc 1) (exCurrent PInf) s4)"
    using adaptStep_refresh [where ov = ?ov and positionId = 1
        and cur = "exCurrent (Fin 0)" and ?s0.0 = exEntry and acc = True and oos = False
        and valid = True and acc' = True and chainSize = 2 and E = "?E PInf" and cand = "exCurrent PInf"
        and ?s1.0 = "exProposed PInf" and cand' = "exCurrent PInf"
        and ?s2.0 = "exProposed PInf" and cur' = "exCurrent PInf"
        and st = "exWritten PInf",
        THEN conjunct2, THEN conjunct1] p [of PInf] d [of PInf] u [of PInf]
    by simp
  have fin: "chainLoop E ov 2 (Suc 1) c s = Some (Inr (c, s))" for E ov c
    and s :: "(double, double) sampler_state"
    by (simp add: chainLoop.simps)
  let ?sF = "(exWritten (Fin 2))\<lparr>lastChainSize := Fin 2, lastMean := Some (Fin 1),
               lastAdaptedCovMatrix := Some (Fin 2),
               tkState := (tkState (exWritten (Fin 2)))\<lparr>lawCovMatrix := Fin 4\<rparr>\<rparr>"
  have c2: "chainLoop (?E (Fin 2)) ?ov 2 1 (exCurrent (Fin 0)) exEntry
      = Some (Inr (exCurrent (Fin 2), ?sF))"
    using l2 by (simp only: e1 fin sum.case)
  have c4: "chainLoop (?E PInf) ?ov 2 1 (exCurrent (Fin 0)) exEntry
      = Some (Inl InvalidFirstCholReturnCode)"
    using l4 by (simp only: e4 sum.case)
  have entry: "generateFullChain (?E c) ?ov (Fin 0) 2 exSampler
      = (case chainLoop (?E c) ?ov 2 1 (exCurrent (Fin 0)) exEntry of
           None \<Rightarrow> None | Some (Inl err) \<Rightarrow> Some (Inl err)
         | Some (Inr r) \<Rightarrow> Some (Inr (snd r)))" for c
    by (simp add: generateFullChain_def resetInfo_def resizeSequence_def setPositionValues_def
        lnConv_def dle_def ex_defs Let_def numeral_2_eq_2 split: option.splits sum.splits
        prod.splits)
  have g2: "generateFullChain (?E (Fin 2)) ?ov (Fin 0) 2 exSampler = Some (Inr ?sF)"
    by (simp only: entry c2 option.case sum.case snd_conv)
  have g4: "generateFullChain (?E PInf) ?ov (Fin 0) 2 exSampler
      = Some (Inl InvalidFirstCholReturnCode)"
    by (simp only: entry c4 option.case sum.case)
  have inv: "covOk (?E (Fin 2)) ?ov (Fin 1) (Fin 4)"
    using adaptStep_refresh [where E = "?E (Fin 2)" and ov = ?ov and ?x0.0 = "Fin 0" and N = 2
        and ?st0.0 = exSampler and stN = ?sF, THEN conjunct2, THEN conjunct2] g2
    by (simp add: exSampler_def)
  have v1: "map_sum id amView (adaptStep (?E (Fin 2)) ?ov 1 (exWritten (Fin 2)))
      = Inr (Fin 2, Some (Fin 1), Some (Fin 2), Fin 4)"
    by (simp only: e1) (simp add: amView_def ex_defs)
  have v7: "map_option (map_sum id (\<lambda>r. (vecValues (fst r), amView (snd r))))
        (chainLoop (?E (Fin 2)) ?ov 2 1 (exCurrent (Fin 0)) exEntry)
      = Some (Inr (Fin 2, Fin 2, Some (Fin 1), Some (Fin 2), Fin 4))"
    by (simp only: c2) (simp add: amView_def ex_defs)
  have v9: "observe amView (generateFullChain (?E (Fin 2)) ?ov (Fin 0) 2 exSampler)
      = Some (Fin 2, Some (Fin 1), Some (Fin 2), Fin 4)"
    by (simp only: g2) (simp add: observe_def amView_def ex_defs)
  from v1 e2 e3 e4 e5 l2 v7 c4 v9 inv g4 show ?thesis by blast
qed

text \<open>
  Claim C5 as stated fails. In the generation of two positions from 0 in which the drawn
  vector is 0, \<open>last_cov\<close> is 0 at the adaptation event of position 1, and so is the
  scaled candidate \<open>eta * last_cov\<close>; the factorisations are attempted on \<open>0\<close> and on
  \<open>3\<close>, and the kernel's covariance becomes \<open>6\<close>, which is
  \<open>eta * (last_cov + epsilon)\<close> and not the scaled candidate. When the drawn vector is
  \<open>+inf\<close>, \<open>last_cov\<close> is NaN, the first factorisation returns the code 1, and the
  generation aborts: there is no second attempt and sampling does not continue.
\<close>

theorem adaptStep_refresh_counterexample:
  "map_sum id amView
      (adaptStep (exEnv (uConst (Fin 0)) exTargetFlat) (exOptions True 0 1 1) 1
         (exWritten (Fin 0)))
     = Inr (Fin 2, Some (Fin 0), Some (Fin 0), Fin 6)
   \<and> mscale (exEnv (uConst (Fin 0)) exTargetFlat) (amEta (exOptions True 0 1 1)) (Fin 0) = Fin 0
   \<and> fst (refreshProposalCov (exEnv (uConst (Fin 0)) exTargetFlat) (exOptions True 0 1 1) (Fin 0))
     = [Fin 0, Fin 3]
   \<and> observe amView
        (generateFullChain (exEnv (uConst (Fin 0)) exTargetFlat) (exOptions True 0 1 1)
           (Fin 0) 2 exSampler)
     = Some (Fin 2, Some (Fin 0), Some (Fin 0), Fin 6)
   \<and> generateFullChain (exEnv (uConst PInf) exTargetFlat) (exOptions True 0 1 1)
        (Fin 0) 2 exSampler
     = Some (Inl InvalidFirstCholReturnCode)"
proof -
  note am_simps = amWindow_def getPositionValues_def updateAdaptedCovMatrix_def
    refreshProposalCov_def updateLawCovMatrix_def isnan_def dsub_def inf_of_sign_def upt_rec
  have a: "map_sum id amView
      (adaptStep (exEnv (uConst (Fin 0)) exTargetFlat) (exOptions True 0 1 1) 1
         (exWritten (Fin 0)))
     = Inr (Fin 2, Some (Fin 0), Some (Fin 0), Fin 6)"
    by (simp add: adaptStep_def amEnabled_def am_simps amView_def ex_defs Let_def)
  have b: "mscale (exEnv (uConst (Fin 0)) exTargetFlat) (amEta (exOptions True 0 1 1)) (Fin 0)
      = Fin 0"
    by (simp add: ex_defs)
  have c: "fst (refreshProposalCov (exEnv (uConst (Fin 0)) exTargetFlat) (exOptions True 0 1 1)
      (Fin 0)) = [Fin 0, Fin 3]"
    by (simp add: refreshProposalCov_def ex_defs isnan_def Let_def)
  have d: "observe amView
        (generateFullChain (exEnv (uConst (Fin 0)) exTargetFlat) (exOptions True 0 1 1)
           (Fin 0) 2 exSampler)
     = Some (Fin 2, Some (Fin 0), Some (Fin 0), Fin 6)"
    by (simp add: run_simps am_simps observe_def amView_def ex_defs Let_def numeral_2_eq_2)
  have e: "generateFullChain (exEnv (uConst PInf) exTargetFlat) (exOptions True 0 1 1)
        (Fin 0) 2 exSampler
     = Some (Inl InvalidFirstCholReturnCode)"
    by (simp add: run_simps am_simps ex_defs Let_def numeral_2_eq_2)
  from a b c d e show ?thesis by blast
qed

end
